theory Spec2Isabelle
  imports Main "HOL-Library.Sublist"
begin

section \<open>Strings of the page script\<close>

text \<open>
  A JavaScript string is a sequence of UTF-16 code units. A code unit is modelled by its
  number, so the Korean text of the page is written with the numbers of its code units.
  \<open>js\<close> turns an ASCII literal into such a string.
\<close>

type_synonym jsstring = "nat list"

definition js :: "string \<Rightarrow> jsstring" where
  "js s = map of_char s"

text \<open>
  \<open>String.prototype.trim\<close> removes white space and line terminators from both ends:
  TAB, LF, VT, FF, CR, SP, NBSP, the space separators of Unicode, LS, PS and the byte
  order mark. All of them are single code units.
\<close>

definition is_js_whitespace :: "nat \<Rightarrow> bool" where
  "is_js_whitespace c =
     (c = 0x9 \<or> c = 0xA \<or> c = 0xB \<or> c = 0xC \<or> c = 0xD \<or> c = 0x20 \<or> c = 0xA0
      \<or> c = 0x1680 \<or> (0x2000 \<le> c \<and> c \<le> 0x200A) \<or> c = 0x2028 \<or> c = 0x2029
      \<or> c = 0x202F \<or> c = 0x205F \<or> c = 0x3000 \<or> c = 0xFEFF)"

definition trim :: "jsstring \<Rightarrow> jsstring" where
  "trim s = rev (dropWhile is_js_whitespace (rev (dropWhile is_js_whitespace s)))"

text \<open>
  \<open>hay.includes(needle)\<close>: does \<open>needle\<close> occur in \<open>hay\<close> as a run of consecutive code
  units. The empty needle occurs in every string.
\<close>

fun includes_js :: "jsstring \<Rightarrow> jsstring \<Rightarrow> bool" where
  "includes_js [] needle = (needle = [])"
| "includes_js (c # cs) needle = (prefix needle (c # cs) \<or> includes_js cs needle)"

text \<open>
  \<open>String.prototype.toLowerCase\<close> follows the case tables of Unicode, which are not part
  of the script. The functions below take it as the parameter \<open>toLowerCase\<close>.
  \<open>ascii_toLowerCase\<close> is what it does on a string of ASCII and caseless characters (the
  Hangul syllables have no case); the concrete examples use it.
\<close>

definition ascii_toLowerCase :: "jsstring \<Rightarrow> jsstring" where
  "ascii_toLowerCase s = map (\<lambda>c. if 0x41 \<le> c \<and> c \<le> 0x5A then c + 0x20 else c) s"

text \<open>
  \<open>a || b\<close> on an optional string: \<open>a\<close> when it is truthy, that is present and not empty,
  else \<open>b\<close>. \<open>None\<close> is a property that the object does not have (\<open>undefined\<close>).
\<close>

definition truthy :: "jsstring option \<Rightarrow> bool" where
  "truthy a = (case a of None \<Rightarrow> False | Some s \<Rightarrow> s \<noteq> [])"

definition js_or :: "jsstring option \<Rightarrow> jsstring option \<Rightarrow> jsstring option" where
  "js_or a b = (if truthy a then a else b)"

section \<open>Errors\<close>

text \<open>
  The exceptions the script can meet. \<open>Error msg\<close> is \<open>new Error(msg)\<close> thrown by the
  script itself; \<open>SyntaxError\<close> is thrown by \<open>JSON.parse\<close> and by \<open>res.json()\<close>;
  \<open>TypeError\<close> by a method call on \<open>undefined\<close>, by \<open>new Set\<close> on a value that is not
  iterable and by \<open>fetch\<close> when the request fails. \<open>OutsideModel\<close> is not an exception:
  it marks a JSON text with a number that this development does not evaluate.
\<close>

datatype error = Error jsstring | SyntaxError | TypeError | OutsideModel

section \<open>Recipes and the filter\<close>

datatype ident = IdNum int | IdStr jsstring

record recipe =
  id_field :: ident
  name_en :: "jsstring option"
  name_ko :: "jsstring option"
  category_en :: "jsstring option"
  category_ko :: "jsstring option"
  image_url :: "jsstring option"
  source_url :: "jsstring option"
  materials_en :: "jsstring option"
  materials_ko :: "jsstring option"
  source_en :: "jsstring option"
  source_ko :: "jsstring option"
  buy_price :: "int option"
  sell_price :: "int option"
  owned :: "bool option"

text \<open>
  The callback of \<open>allRecipes.filter\<close> in \<open>getFilteredRecipes\<close>. Both \<open>categoryMatch\<close> and
  \<open>textMatch\<close> are computed before they are combined, so a recipe without a name throws
  whatever its category is. \<open>||\<close> stops at the first true operand: with an empty keyword
  no name is read, and \<open>name_en\<close> is read only when \<open>name_ko\<close> does not contain the keyword.
\<close>

definition recipe_matches ::
  "(jsstring \<Rightarrow> jsstring) \<Rightarrow> jsstring \<Rightarrow> jsstring \<Rightarrow> recipe \<Rightarrow> error + bool" where
  "recipe_matches toLowerCase category search r =
     (let categoryMatch = (category = js ''all'' \<or> category_en r = Some category);
          keyword = toLowerCase (trim search)
      in if keyword = [] then Inr categoryMatch
         else (case name_ko r of
                 None \<Rightarrow> Inl TypeError
               | Some ko \<Rightarrow>
                   (if includes_js (toLowerCase ko) keyword then Inr categoryMatch
                    else (case name_en r of
                            None \<Rightarrow> Inl TypeError
                          | Some en \<Rightarrow>
                              Inr (categoryMatch \<and> includes_js (toLowerCase en) keyword)))))"

text \<open>\<open>Array.prototype.filter\<close> with a callback that may throw: the first throw ends it.\<close>

fun filter_js :: "('a \<Rightarrow> error + bool) \<Rightarrow> 'a list \<Rightarrow> error + 'a list" where
  "filter_js p [] = Inr []"
| "filter_js p (x # xs) =
     (case p x of
        Inl e \<Rightarrow> Inl e
      | Inr b \<Rightarrow> (case filter_js p xs of
                   Inl e \<Rightarrow> Inl e
                 | Inr ys \<Rightarrow> Inr (if b then x # ys else ys)))"

section \<open>JSON values and \<open>JSON.stringify\<close>\<close>

text \<open>
  The values \<open>JSON.parse\<close> returns. A number is an integer that a JavaScript number holds
  exactly (of magnitude at most \<open>2^53\<close>). An object lists its properties in the order
  JavaScript enumerates them: keys that are array indices first, by value, then the other
  keys in the order they were created.
\<close>

datatype json =
    JNull
  | JBool bool
  | JNum int
  | JStr jsstring
  | JArr "json list"
  | JObj "(jsstring \<times> json) list"

definition hex_digit :: "nat \<Rightarrow> nat" where
  "hex_digit k = (if k < 10 then 0x30 + k else 0x61 + (k - 10))"

definition unicode_escape :: "nat \<Rightarrow> jsstring" where
  "unicode_escape c =
     [0x5C, 0x75, hex_digit (c div 4096 mod 16), hex_digit (c div 256 mod 16),
      hex_digit (c div 16 mod 16), hex_digit (c mod 16)]"

definition is_high_surrogate :: "nat \<Rightarrow> bool" where
  "is_high_surrogate c = (0xD800 \<le> c \<and> c \<le> 0xDBFF)"

definition is_low_surrogate :: "nat \<Rightarrow> bool" where
  "is_low_surrogate c = (0xDC00 \<le> c \<and> c \<le> 0xDFFF)"

text \<open>
  \<open>QuoteJSONString\<close>: the two-character escapes, \<open>\u\<close> escapes for the other control
  characters and for a surrogate that is not part of a pair, every other code unit as it is.
\<close>

definition quote_unit :: "nat \<Rightarrow> jsstring" where
  "quote_unit c =
     (if c = 0x8 then [0x5C, 0x62]
      else if c = 0x9 then [0x5C, 0x74]
      else if c = 0xA then [0x5C, 0x6E]
      else if c = 0xC then [0x5C, 0x66]
      else if c = 0xD then [0x5C, 0x72]
      else if c = 0x22 then [0x5C, 0x22]
      else if c = 0x5C then [0x5C, 0x5C]
      else if c < 0x20 \<or> is_high_surrogate c \<or> is_low_surrogate c then unicode_escape c
      else [c])"

fun quote_body :: "jsstring \<Rightarrow> jsstring" where
  "quote_body [] = []"
| "quote_body [c] = quote_unit c"
| "quote_body (c # d # cs) =
     (if is_high_surrogate c \<and> is_low_surrogate d then c # d # quote_body cs
      else quote_unit c @ quote_body (d # cs))"

definition QuoteJSONString :: "jsstring \<Rightarrow> jsstring" where
  "QuoteJSONString s = 0x22 # quote_body s @ [0x22]"

text \<open>\<open>Number::toString\<close> on an integer: its decimal digits, after a minus sign if negative.\<close>

fun decimal :: "nat \<Rightarrow> jsstring" where
  "decimal n = (if n < 10 then [0x30 + n] else decimal (n div 10) @ [0x30 + n mod 10])"

declare decimal.simps [simp del]

definition number_to_string :: "int \<Rightarrow> jsstring" where
  "number_to_string n = (if n < 0 then 0x2D # decimal (nat (- n)) else decimal (nat n))"

fun join_comma :: "jsstring list \<Rightarrow> jsstring" where
  "join_comma [] = []"
| "join_comma [x] = x"
| "join_comma (x # y # ys) = x @ 0x2C # join_comma (y # ys)"

fun stringify :: "json \<Rightarrow> jsstring" where
  "stringify JNull = js ''null''"
| "stringify (JBool b) = (if b then js ''true'' else js ''false'')"
| "stringify (JNum n) = number_to_string n"
| "stringify (JStr s) = QuoteJSONString s"
| "stringify (JArr vs) = 0x5B # join_comma (map stringify vs) @ [0x5D]"
| "stringify (JObj ps) =
     0x7B # join_comma (map (\<lambda>(k, v). QuoteJSONString k @ 0x3A # stringify v) ps) @ [0x7D]"

section \<open>\<open>JSON.parse\<close>\<close>

text \<open>
  An object under construction receives its properties one at a time. A key it already
  has keeps its place and takes the new value; a new key that is an array index (the
  decimal form of a number below \<open>2^32 - 1\<close>) goes among the indices in ascending order;
  any other new key goes to the end.
\<close>

definition is_digit :: "nat \<Rightarrow> bool" where
  "is_digit c = (0x30 \<le> c \<and> c \<le> 0x39)"

definition digits_value :: "jsstring \<Rightarrow> nat" where
  "digits_value ds = foldl (\<lambda>v c. v * 10 + (c - 0x30)) 0 ds"

definition array_index :: "jsstring \<Rightarrow> nat option" where
  "array_index k =
     (if k \<noteq> [] \<and> list_all is_digit k \<and> (k = [0x30] \<or> take 1 k \<noteq> [0x30])
         \<and> digits_value k < 4294967295
      then Some (digits_value k) else None)"

fun obj_insert_index ::
  "nat \<Rightarrow> jsstring \<Rightarrow> json \<Rightarrow> (jsstring \<times> json) list \<Rightarrow> (jsstring \<times> json) list" where
  "obj_insert_index n k v [] = [(k, v)]"
| "obj_insert_index n k v ((k', v') # ps) =
     (case array_index k' of
        Some n' \<Rightarrow>
          (if n' < n then (k', v') # obj_insert_index n k v ps else (k, v) # (k', v') # ps)
      | None \<Rightarrow> (k, v) # (k', v') # ps)"

definition obj_put ::
  "(jsstring \<times> json) list \<Rightarrow> jsstring \<Rightarrow> json \<Rightarrow> (jsstring \<times> json) list" where
  "obj_put ps k v =
     (if k \<in> fst ` set ps then map (\<lambda>(k', v'). if k' = k then (k', v) else (k', v')) ps
      else (case array_index k of
              Some n \<Rightarrow> obj_insert_index n k v ps
            | None \<Rightarrow> ps @ [(k, v)]))"

text \<open>
  The parser reads the text one code unit at a time. Its state is what it expects next
  (\<open>mode\<close>), the arrays and objects that are still open (\<open>frame\<close>, innermost first), and a
  flag that is set once a number was read that is not an integer of magnitude at most
  \<open>2^53\<close>. The grammar is that of ECMA-404: the four white space characters, no leading
  zero, no control character inside a string, the eight short escapes and \<open>\u\<close> with four
  hexadecimal digits.
\<close>

datatype numst = NMinus | NZero | NInt | NDot | NFrac | NE | NESign | NExp

datatype mode =
    MValue
  | MValueOrClose
  | MKeyOrClose
  | MKey
  | MColon
  | MAfter
  | MDone json
  | MStr bool jsstring
  | MEsc bool jsstring
  | MUni bool jsstring nat nat
  | MNum numst bool nat
  | MLit json jsstring

datatype frame = FArr "json list" | FObj "(jsstring \<times> json) list" jsstring

type_synonym pstate = "mode \<times> frame list \<times> bool"

text \<open>A value is complete: it is the result, or it joins the innermost open container.\<close>

fun complete :: "json \<Rightarrow> frame list \<Rightarrow> mode \<times> frame list" where
  "complete v [] = (MDone v, [])"
| "complete v (FArr vs # fs) = (MAfter, FArr (vs @ [v]) # fs)"
| "complete v (FObj ps k # fs) = (MAfter, FObj (obj_put ps k v) k # fs)"

definition is_json_ws :: "nat \<Rightarrow> bool" where
  "is_json_ws c = (c = 0x20 \<or> c = 0x9 \<or> c = 0xA \<or> c = 0xD)"

definition hex_value :: "nat \<Rightarrow> nat option" where
  "hex_value c =
     (if 0x30 \<le> c \<and> c \<le> 0x39 then Some (c - 0x30)
      else if 0x41 \<le> c \<and> c \<le> 0x46 then Some (c - 0x41 + 10)
      else if 0x61 \<le> c \<and> c \<le> 0x66 then Some (c - 0x61 + 10)
      else None)"

text \<open>The first code unit of a value.\<close>

definition start_value :: "nat \<Rightarrow> frame list \<Rightarrow> error + mode \<times> frame list" where
  "start_value c stk =
     (if c = 0x22 then Inr (MStr False [], stk)
      else if c = 0x5B then Inr (MValueOrClose, FArr [] # stk)
      else if c = 0x7B then Inr (MKeyOrClose, FObj [] [] # stk)
      else if c = 0x2D then Inr (MNum NMinus True 0, stk)
      else if c = 0x30 then Inr (MNum NZero False 0, stk)
      else if is_digit c then Inr (MNum NInt False (c - 0x30), stk)
      else if c = 0x74 then Inr (MLit (JBool True) (js ''rue''), stk)
      else if c = 0x66 then Inr (MLit (JBool False) (js ''alse''), stk)
      else if c = 0x6E then Inr (MLit JNull (js ''ull''), stk)
      else Inl SyntaxError)"

text \<open>
  One code unit, in every mode but that of a number. Inside a number \<open>step\<close> below decides,
  and comes here only once the number has ended; the last equation is never used.
\<close>

fun step_plain :: "nat \<Rightarrow> mode \<Rightarrow> frame list \<Rightarrow> error + mode \<times> frame list" where
  "step_plain c MValue stk =
     (if is_json_ws c then Inr (MValue, stk) else start_value c stk)"
| "step_plain c MValueOrClose stk =
     (if is_json_ws c then Inr (MValueOrClose, stk)
      else if c = 0x5D then
        (case stk of FArr vs # fs \<Rightarrow> Inr (complete (JArr vs) fs) | _ \<Rightarrow> Inl SyntaxError)
      else start_value c stk)"
| "step_plain c MKeyOrClose stk =
     (if is_json_ws c then Inr (MKeyOrClose, stk)
      else if c = 0x7D then
        (case stk of FObj ps k # fs \<Rightarrow> Inr (complete (JObj ps) fs) | _ \<Rightarrow> Inl SyntaxError)
      else if c = 0x22 then Inr (MStr True [], stk)
      else Inl SyntaxError)"
| "step_plain c MKey stk =
     (if is_json_ws c then Inr (MKey, stk)
      else if c = 0x22 then Inr (MStr True [], stk)
      else Inl SyntaxError)"
| "step_plain c MColon stk =
     (if is_json_ws c then Inr (MColon, stk)
      else if c = 0x3A then Inr (MValue, stk)
      else Inl SyntaxError)"
| "step_plain c MAfter stk =
     (if is_json_ws c then Inr (MAfter, stk)
      else if c = 0x2C then
        (case stk of
           FArr vs # fs \<Rightarrow> Inr (MValue, stk)
         | FObj ps k # fs \<Rightarrow> Inr (MKey, stk)
         | [] \<Rightarrow> Inl SyntaxError)
      else if c = 0x5D then
        (case stk of FArr vs # fs \<Rightarrow> Inr (complete (JArr vs) fs) | _ \<Rightarrow> Inl SyntaxError)
      else if c = 0x7D then
        (case stk of FObj ps k # fs \<Rightarrow> Inr (complete (JObj ps) fs) | _ \<Rightarrow> Inl SyntaxError)
      else Inl SyntaxError)"
| "step_plain c (MDone v) stk =
     (if is_json_ws c then Inr (MDone v, stk) else Inl SyntaxError)"
| "step_plain c (MStr key acc) stk =
     (if c = 0x22 then
        (if key then
           (case stk of FObj ps k # fs \<Rightarrow> Inr (MColon, FObj ps acc # fs) | _ \<Rightarrow> Inl SyntaxError)
         else Inr (complete (JStr acc) stk))
      else if c = 0x5C then Inr (MEsc key acc, stk)
      else if c < 0x20 then Inl SyntaxError
      else Inr (MStr key (acc @ [c]), stk))"
| "step_plain c (MEsc key acc) stk =
     (if c = 0x22 \<or> c = 0x5C \<or> c = 0x2F then Inr (MStr key (acc @ [c]), stk)
      else if c = 0x62 then Inr (MStr key (acc @ [0x8]), stk)
      else if c = 0x66 then Inr (MStr key (acc @ [0xC]), stk)
      else if c = 0x6E then Inr (MStr key (acc @ [0xA]), stk)
      else if c = 0x72 then Inr (MStr key (acc @ [0xD]), stk)
      else if c = 0x74 then Inr (MStr key (acc @ [0x9]), stk)
      else if c = 0x75 then Inr (MUni key acc 0 0, stk)
      else Inl SyntaxError)"
| "step_plain c (MUni key acc n v) stk =
     (case hex_value c of
        None \<Rightarrow> Inl SyntaxError
      | Some d \<Rightarrow>
          (if n = 3 then Inr (MStr key (acc @ [v * 16 + d]), stk)
           else Inr (MUni key acc (n + 1) (v * 16 + d), stk)))"
| "step_plain c (MLit v rest) stk =
     (case rest of
        [] \<Rightarrow> Inl SyntaxError
      | x # xs \<Rightarrow>
          (if c \<noteq> x then Inl SyntaxError
           else if xs = [] then Inr (complete v stk)
           else Inr (MLit v xs, stk)))"
| "step_plain c (MNum ns neg m) stk = Inl SyntaxError"

text \<open>
  One code unit inside a number: the number goes on, or it is malformed, or it ended
  before this code unit.
\<close>

datatype num_outcome = Continue numst nat | Finished | Malformed

fun num_step :: "numst \<Rightarrow> nat \<Rightarrow> nat \<Rightarrow> num_outcome" where
  "num_step NMinus m c =
     (if c = 0x30 then Continue NZero 0
      else if is_digit c then Continue NInt (c - 0x30)
      else Malformed)"
| "num_step NZero m c =
     (if c = 0x2E then Continue NDot m
      else if c = 0x65 \<or> c = 0x45 then Continue NE m
      else Finished)"
| "num_step NInt m c =
     (if is_digit c then Continue NInt (m * 10 + (c - 0x30))
      else if c = 0x2E then Continue NDot m
      else if c = 0x65 \<or> c = 0x45 then Continue NE m
      else Finished)"
| "num_step NDot m c = (if is_digit c then Continue NFrac m else Malformed)"
| "num_step NFrac m c =
     (if is_digit c then Continue NFrac m
      else if c = 0x65 \<or> c = 0x45 then Continue NE m
      else Finished)"
| "num_step NE m c =
     (if c = 0x2B \<or> c = 0x2D then Continue NESign m
      else if is_digit c then Continue NExp m
      else Malformed)"
| "num_step NESign m c = (if is_digit c then Continue NExp m else Malformed)"
| "num_step NExp m c = (if is_digit c then Continue NExp m else Finished)"

definition num_accepting :: "numst \<Rightarrow> bool" where
  "num_accepting ns = (ns = NZero \<or> ns = NInt \<or> ns = NFrac \<or> ns = NExp)"

text \<open>
  The value of a number that ended. With a fraction or an exponent, or beyond \<open>2^53\<close>, it
  is a floating-point number that is not evaluated here: the flag is set and the parse
  goes on, so that a later syntax error is still found.
\<close>

definition num_value :: "numst \<Rightarrow> bool \<Rightarrow> nat \<Rightarrow> json option" where
  "num_value ns neg m =
     (if (ns = NZero \<or> ns = NInt) \<and> m \<le> 9007199254740992
      then Some (JNum (if neg then - int m else int m)) else None)"

definition end_number :: "numst \<Rightarrow> bool \<Rightarrow> nat \<Rightarrow> frame list \<Rightarrow> bool \<Rightarrow> pstate" where
  "end_number ns neg m stk fl =
     (case num_value ns neg m of
        Some v \<Rightarrow> (fst (complete v stk), snd (complete v stk), fl)
      | None \<Rightarrow> (fst (complete (JNum 0) stk), snd (complete (JNum 0) stk), True))"

fun step :: "nat \<Rightarrow> pstate \<Rightarrow> error + pstate" where
  "step c (MNum ns neg m, stk, fl) =
     (case num_step ns m c of
        Continue ns' m' \<Rightarrow> Inr (MNum ns' neg m', stk, fl)
      | Malformed \<Rightarrow> Inl SyntaxError
      | Finished \<Rightarrow>
          (case end_number ns neg m stk fl of
             (md, stk', fl') \<Rightarrow>
               (case step_plain c md stk' of
                  Inl e \<Rightarrow> Inl e
                | Inr (md', stk'') \<Rightarrow> Inr (md', stk'', fl'))))"
| "step c (md, stk, fl) =
     (case step_plain c md stk of
        Inl e \<Rightarrow> Inl e
      | Inr (md', stk') \<Rightarrow> Inr (md', stk', fl))"

fun run :: "jsstring \<Rightarrow> pstate \<Rightarrow> error + pstate" where
  "run [] st = Inr st"
| "run (c # cs) st = (case step c st of Inl e \<Rightarrow> Inl e | Inr st' \<Rightarrow> run cs st')"

text \<open>The end of the text: a complete value must have been read, and nothing be open.\<close>

fun result_of :: "pstate \<Rightarrow> error + json" where
  "result_of (MDone v, stk, fl) = (if fl then Inl OutsideModel else Inr v)"
| "result_of (md, stk, fl) = Inl SyntaxError"

fun finish :: "pstate \<Rightarrow> error + json" where
  "finish (MNum ns neg m, stk, fl) =
     (if num_accepting ns then result_of (end_number ns neg m stk fl) else Inl SyntaxError)"
| "finish st = result_of st"

definition JSON_parse :: "jsstring \<Rightarrow> error + json" where
  "JSON_parse text = (case run text (MValue, [], False) of Inl e \<Rightarrow> Inl e | Inr st \<Rightarrow> finish st)"

section \<open>The ownership set\<close>

text \<open>
  \<open>ownedIds\<close> is a \<open>Set\<close>. It keeps its elements in the order they were added, which is
  the order \<open>[...ownedIds]\<close> lists them in. Numbers, strings, booleans and \<open>null\<close> are equal
  when they are the same value. An array or an object is equal to itself only, and every
  one that \<open>JSON.parse\<close> builds is new, so it is never found among the elements.
\<close>

definition is_primitive :: "json \<Rightarrow> bool" where
  "is_primitive v = (case v of JArr vs \<Rightarrow> False | JObj ps \<Rightarrow> False | _ \<Rightarrow> True)"

definition set_has :: "json list \<Rightarrow> json \<Rightarrow> bool" where
  "set_has s v = (is_primitive v \<and> v \<in> set s)"

definition set_add :: "json list \<Rightarrow> json \<Rightarrow> json list" where
  "set_add s v = (if set_has s v then s else s @ [v])"

definition set_delete :: "json list \<Rightarrow> json \<Rightarrow> json list" where
  "set_delete s v = (if set_has s v then remove1 v s else s)"

text \<open>The id of a recipe is a string or an integer; as a value of the set it is itself.\<close>

fun id_json :: "ident \<Rightarrow> json" where
  "id_json (IdNum n) = JNum n"
| "id_json (IdStr s) = JStr s"

text \<open>
  The values that are written to the stored entry and read back as they were: strings,
  integers that a JavaScript number holds exactly, booleans and \<open>null\<close>. The ids of recipes
  are among them, but for an integer beyond \<open>2^53\<close>.
\<close>

definition storable :: "json \<Rightarrow> bool" where
  "storable v =
     (case v of
        JNum n \<Rightarrow> \<bar>n\<bar> \<le> 9007199254740992
      | JArr vs \<Rightarrow> False
      | JObj ps \<Rightarrow> False
      | _ \<Rightarrow> True)"

text \<open>Iterating a string yields its code points, a surrogate pair as one string.\<close>

fun code_points :: "jsstring \<Rightarrow> jsstring list" where
  "code_points [] = []"
| "code_points [c] = [[c]]"
| "code_points (c # d # cs) =
     (if is_high_surrogate c \<and> is_low_surrogate d then [c, d] # code_points cs
      else [c] # code_points (d # cs))"

text \<open>
  \<open>new Set(v)\<close>: the elements of an array, the code points of a string, nothing for
  \<open>null\<close>; a number, a boolean or an object is not iterable.
\<close>

fun new_Set :: "json \<Rightarrow> error + json list" where
  "new_Set JNull = Inr []"
| "new_Set (JArr vs) = Inr (foldl set_add [] vs)"
| "new_Set (JStr s) = Inr (foldl set_add [] (map JStr (code_points s)))"
| "new_Set (JBool b) = Inl TypeError"
| "new_Set (JNum n) = Inl TypeError"
| "new_Set (JObj ps) = Inl TypeError"

text \<open>
  Line 6 of the script:
  \<^verbatim>\<open>let ownedIds = new Set(JSON.parse(localStorage.getItem(STORAGE_KEY) || "[]"));\<close>
  \<open>getItem\<close> gives \<open>null\<close> for an entry that does not exist (\<open>None\<close>). \<open>null\<close> and the empty
  string are falsy and replaced by \<open>"[]"\<close>. Nothing catches what \<open>JSON.parse\<close> or
  \<open>new Set\<close> throws.
\<close>

definition ownedIds_initial :: "jsstring option \<Rightarrow> error + json list" where
  "ownedIds_initial stored =
     (case JSON_parse (case stored of
                         None \<Rightarrow> js ''[]''
                       | Some s \<Rightarrow> (if s = [] then js ''[]'' else s)) of
        Inl e \<Rightarrow> Inl e
      | Inr v \<Rightarrow> new_Set v)"

section \<open>The state of the page\<close>

text \<open>
  A card of the grid, as \<open>renderRecipes\<close> fills it from the template. \<open>checkbox_checked\<close>
  is the state the checkbox is given when the card is built.
\<close>

record card =
  img_src :: jsstring
  img_alt :: jsstring
  nameKo_text :: jsstring
  nameEn_text :: jsstring
  category_text :: jsstring
  materials_text :: jsstring
  source_text :: jsstring
  checkbox_checked :: bool

text \<open>
  The content of \<open>recipeGrid\<close>: the cards, or the paragraph
  \<^verbatim>\<open><p>...: ${message}</p>\<close> that \<open>init\<close> writes for the error it caught.
\<close>

datatype grid = Cards "card list" | ErrorParagraph error

text \<open>
  The globals of the script, the entry of \<open>localStorage\<close> under \<open>STORAGE_KEY\<close>, and the two
  elements the script writes to.
\<close>

record app_state =
  allRecipes :: "recipe list"
  currentCategory :: jsstring
  searchText :: jsstring
  ownedIds :: "json list"
  storage :: "jsstring option"
  stats :: jsstring
  recipeGrid :: grid

text \<open>
  \<open>saveOwned\<close> overwrites the entry with the serialized elements of the set, in their
  order. The write itself is taken to succeed.
\<close>

definition saveOwned :: "app_state \<Rightarrow> app_state" where
  "saveOwned st = st\<lparr>storage := Some (stringify (JArr (ownedIds st)))\<rparr>"

definition getFilteredRecipes ::
  "(jsstring \<Rightarrow> jsstring) \<Rightarrow> app_state \<Rightarrow> error + recipe list" where
  "getFilteredRecipes toLowerCase st =
     filter_js (recipe_matches toLowerCase (currentCategory st) (searchText st)) (allRecipes st)"

text \<open>
  The status line, a template literal around the two counts:
  the code units of the Korean words for "shown" and "owned" and of the counter word.
\<close>

definition stats_line :: "nat \<Rightarrow> nat \<Rightarrow> jsstring" where
  "stats_line visibleCount ownedCount =
     [0xD45C, 0xC2DC, 0x20] @ decimal visibleCount
       @ [0xAC1C, 0x20, 0x7C, 0x20, 0xBCF4, 0xC720, 0x20] @ decimal ownedCount @ [0xAC1C]"

definition renderStats :: "recipe list \<Rightarrow> app_state \<Rightarrow> app_state" where
  "renderStats visibleRecipes st =
     (let ownedCount =
            length (filter (\<lambda>recipe. set_has (ownedIds st) (id_json (id_field recipe)))
                      visibleRecipes)
      in st\<lparr>stats := stats_line (length visibleRecipes) ownedCount\<rparr>)"

text \<open>
  Assigning \<open>undefined\<close> to \<open>textContent\<close> gives the empty text; inside a template literal
  \<open>undefined\<close> is spelled out.
\<close>

definition text_of :: "jsstring option \<Rightarrow> jsstring" where
  "text_of a = (case a of None \<Rightarrow> [] | Some s \<Rightarrow> s)"

definition template_of :: "jsstring option \<Rightarrow> jsstring" where
  "template_of a = (case a of None \<Rightarrow> js ''undefined'' | Some s \<Rightarrow> s)"

definition render_card :: "recipe \<Rightarrow> json list \<Rightarrow> card" where
  "render_card recipe owned_set =
     \<lparr> img_src = text_of (js_or (image_url recipe) (Some [])),
       img_alt = template_of (name_ko recipe) @ [0x20, 0xC774, 0xBBF8, 0xC9C0],
       nameKo_text = text_of (js_or (name_ko recipe) (name_en recipe)),
       nameEn_text = text_of (name_en recipe),
       category_text = text_of (category_ko recipe),
       materials_text =
         text_of (js_or (js_or (materials_ko recipe) (materials_en recipe)) (Some (js ''-''))),
       source_text =
         text_of (js_or (js_or (source_ko recipe) (source_en recipe)) (Some (js ''-''))),
       checkbox_checked = set_has owned_set (id_json (id_field recipe)) \<rparr>"

text \<open>
  \<open>renderRecipes\<close>: only \<open>getFilteredRecipes\<close> can throw, and it runs first, so a throw
  leaves the page as it was.
\<close>

definition renderRecipes :: "(jsstring \<Rightarrow> jsstring) \<Rightarrow> app_state \<Rightarrow> error + app_state" where
  "renderRecipes toLowerCase st =
     (case getFilteredRecipes toLowerCase st of
        Inl e \<Rightarrow> Inl e
      | Inr visible \<Rightarrow>
          Inr ((renderStats visible st)
                 \<lparr>recipeGrid := Cards (map (\<lambda>recipe. render_card recipe (ownedIds st)) visible)\<rparr>))"

text \<open>
  The \<open>change\<close> listener of the checkbox of \<open>recipe\<close>; \<open>checked\<close> is the state the user has
  just given the checkbox: the id is added when the checkbox is now checked and deleted
  when it is not (\<open>toggled\<close>). The set and the stored entry are written before
  \<open>getFilteredRecipes\<close> runs, so they stay written if it throws: the result is the
  exception, if any, and the state the listener leaves.
\<close>

definition toggled :: "recipe \<Rightarrow> bool \<Rightarrow> json list \<Rightarrow> json list" where
  "toggled recipe checked s =
     (if checked then set_add s (id_json (id_field recipe))
      else set_delete s (id_json (id_field recipe)))"

definition checkbox_change ::
  "(jsstring \<Rightarrow> jsstring) \<Rightarrow> recipe \<Rightarrow> bool \<Rightarrow> app_state \<Rightarrow> error option \<times> app_state" where
  "checkbox_change toLowerCase recipe checked st =
     (let st1 = st\<lparr>ownedIds := toggled recipe checked (ownedIds st)\<rparr>;
          st2 = saveOwned st1
      in case getFilteredRecipes toLowerCase st2 of
           Inl e \<Rightarrow> (Some e, st2)
         | Inr visible \<Rightarrow> (None, renderStats visible st2))"

text \<open>The two listeners of \<open>bindEvents\<close>: they set a filter and render again.\<close>

definition search_input ::
  "(jsstring \<Rightarrow> jsstring) \<Rightarrow> jsstring \<Rightarrow> app_state \<Rightarrow> error option \<times> app_state" where
  "search_input toLowerCase v st =
     (case renderRecipes toLowerCase (st\<lparr>searchText := v\<rparr>) of
        Inl e \<Rightarrow> (Some e, st\<lparr>searchText := v\<rparr>)
      | Inr st' \<Rightarrow> (None, st'))"

definition category_click ::
  "(jsstring \<Rightarrow> jsstring) \<Rightarrow> jsstring \<Rightarrow> app_state \<Rightarrow> error option \<times> app_state" where
  "category_click toLowerCase category st =
     (case renderRecipes toLowerCase (st\<lparr>currentCategory := category\<rparr>) of
        Inl e \<Rightarrow> (Some e, st\<lparr>currentCategory := category\<rparr>)
      | Inr st' \<Rightarrow> (None, st'))"

section \<open>Loading the catalog and starting the page\<close>

text \<open>
  What the page finds when it starts: the protocol of its address, what \<open>fetch\<close> of
  \<open>./recipes.json\<close> gives (\<open>None\<close>: the request itself fails), and the stored entry. A
  response has its \<open>ok\<close> flag and the outcome of \<open>res.json()\<close>: \<open>None\<close> when the body is not
  JSON, else the parsed value, which the data file makes a sequence of recipes.
\<close>

record response =
  ok :: bool
  json_body :: "recipe list option"

record env =
  protocol :: jsstring
  fetched :: "response option"
  stored_entry :: "jsstring option"

text \<open>The two messages of \<open>loadRecipes\<close>, with the Korean text as code units.\<close>

definition blocked_message :: jsstring where
  "blocked_message =
     js ''index.html'' @ [0xC744, 0x20, 0xD30C, 0xC77C, 0xB85C, 0x20, 0xC9C1, 0xC811, 0x20,
       0xC5F4, 0xBA74, 0x20, 0xB370, 0xC774, 0xD130, 0x20, 0xB85C, 0xB529, 0xC774, 0x20,
       0xCC28, 0xB2E8, 0xB429, 0xB2C8, 0xB2E4, 0x2E, 0x20, 0xD130, 0xBBF8, 0xB110, 0xC5D0,
       0xC11C, 0x20, 0x60]
     @ js ''python3 -m http.server 5500'' @ [0x60, 0x20, 0xC2E4, 0xD589, 0x20, 0xD6C4, 0x20]
     @ js ''http://localhost:5500'' @ [0x20, 0xC73C, 0xB85C, 0x20, 0xC811, 0xC18D, 0xD558,
       0xC138, 0xC694, 0x2E]"

definition not_read_message :: jsstring where
  "not_read_message =
     js ''recipes.json'' @ [0x20, 0xD30C, 0xC77C, 0xC744, 0x20, 0xC77D, 0xC9C0, 0x20, 0xBABB,
       0xD588, 0xC2B5, 0xB2C8, 0xB2E4, 0x2E]"

definition loadRecipes :: "env \<Rightarrow> app_state \<Rightarrow> error + app_state" where
  "loadRecipes e st =
     (if protocol e = js ''file:'' then Inl (Error blocked_message)
      else (case fetched e of
              None \<Rightarrow> Inl TypeError
            | Some res \<Rightarrow>
                (if \<not> ok res then Inl (Error not_read_message)
                 else (case json_body res of
                         None \<Rightarrow> Inl SyntaxError
                       | Some parsed \<Rightarrow> Inr (st\<lparr>allRecipes := parsed\<rparr>)))))"

text \<open>\<open>init\<close> catches what \<open>loadRecipes\<close> and the first \<open>renderRecipes\<close> throw and shows it.\<close>

definition show_failure :: "error \<Rightarrow> app_state \<Rightarrow> app_state" where
  "show_failure err st =
     st\<lparr>stats := [0xB370, 0xC774, 0xD130, 0x20, 0xB85C, 0xB529, 0x20, 0xC2E4, 0xD328],
        recipeGrid := ErrorParagraph err\<rparr>"

definition init :: "(jsstring \<Rightarrow> jsstring) \<Rightarrow> env \<Rightarrow> app_state \<Rightarrow> app_state" where
  "init toLowerCase e st =
     (case loadRecipes e st of
        Inl err \<Rightarrow> show_failure err st
      | Inr st1 \<Rightarrow>
          (case renderRecipes toLowerCase st1 of
             Inl err \<Rightarrow> show_failure err st1
           | Inr st2 \<Rightarrow> st2))"

text \<open>
  The script from its first line: the globals are initialised, then \<open>init\<close> is called. An
  exception of line 6 is outside every \<open>try\<close>; it ends the script before \<open>init\<close>.
\<close>

definition script :: "(jsstring \<Rightarrow> jsstring) \<Rightarrow> env \<Rightarrow> error + app_state" where
  "script toLowerCase e =
     (case ownedIds_initial (stored_entry e) of
        Inl err \<Rightarrow> Inl err
      | Inr owned_set \<Rightarrow>
          Inr (init toLowerCase e
                 \<lparr> allRecipes = [], currentCategory = js ''all'', searchText = [],
                   ownedIds = owned_set, storage = stored_entry e, stats = [],
                   recipeGrid = Cards [] \<rparr>))"

section \<open>The specification's wording and two example recipes\<close>

text \<open>
  The visibility predicate as the specification words it: the search text itself is
  tested for emptiness and looked for in the names.
\<close>

definition spec_visible ::
  "(jsstring \<Rightarrow> jsstring) \<Rightarrow> jsstring \<Rightarrow> jsstring \<Rightarrow> recipe \<Rightarrow> bool" where
  "spec_visible toLowerCase category search r =
     ((category = js ''all'' \<or> category_en r = Some category)
      \<and> (search = []
         \<or> (case name_ko r of
               None \<Rightarrow> False
             | Some ko \<Rightarrow> sublist (toLowerCase search) (toLowerCase ko))
         \<or> (case name_en r of
               None \<Rightarrow> False
             | Some en \<Rightarrow> sublist (toLowerCase search) (toLowerCase en))))"

text \<open>
  The same predicate with the keyword the script computes, the search text trimmed and
  then lowercased, in place of the search text.
\<close>

definition keyword_visible ::
  "(jsstring \<Rightarrow> jsstring) \<Rightarrow> jsstring \<Rightarrow> jsstring \<Rightarrow> recipe \<Rightarrow> bool" where
  "keyword_visible toLowerCase category search r =
     ((category = js ''all'' \<or> category_en r = Some category)
      \<and> (toLowerCase (trim search) = []
         \<or> (case name_ko r of
               None \<Rightarrow> False
             | Some ko \<Rightarrow> sublist (toLowerCase (trim search)) (toLowerCase ko))
         \<or> (case name_en r of
               None \<Rightarrow> False
             | Some en \<Rightarrow> sublist (toLowerCase (trim search)) (toLowerCase en))))"

text \<open>The catalog of the specification's scenarios: a fish dish and a cake.\<close>

definition fish :: recipe where
  "fish = \<lparr> id_field = IdNum 1, name_en = Some (js ''Fish''), name_ko = Some [0xC0DD, 0xC120],
            category_en = Some (js ''Food''), category_ko = Some [0xC74C, 0xC2DD],
            image_url = None, source_url = None, materials_en = None, materials_ko = None,
            source_en = None, source_ko = None, buy_price = None, sell_price = None,
            owned = None \<rparr>"

definition cake :: recipe where
  "cake = \<lparr> id_field = IdNum 2, name_en = Some (js ''Cake''),
            name_ko = Some [0xCF00, 0xC774, 0xD06C],
            category_en = Some (js ''Dessert''), category_ko = Some [0xB514, 0xC800, 0xD2B8],
            image_url = None, source_url = None, materials_en = None, materials_ko = None,
            source_en = None, source_ko = None, buy_price = None, sell_price = None,
            owned = None \<rparr>"

definition page :: "jsstring \<Rightarrow> jsstring \<Rightarrow> json list \<Rightarrow> app_state" where
  "page category search owned_set =
     \<lparr> allRecipes = [fish, cake], currentCategory = category, searchText = search,
       ownedIds = owned_set, storage = None, stats = [], recipeGrid = Cards [] \<rparr>"

section \<open>The filter\<close>

lemma includes_js_sublist: "includes_js hay needle = sublist needle hay"
  by (induction hay) (auto simp: sublist_Cons_right)

lemma filter_js_Inr:
  "filter_js p xs = Inr ys \<Longrightarrow> ys = filter (\<lambda>x. p x = Inr True) xs"
  by (induction xs arbitrary: ys) (auto split: sum.splits if_splits)

lemma filter_js_Inl:
  "filter_js p xs = Inl e \<Longrightarrow> \<exists>x\<in>set xs. p x = Inl e"
  by (induction xs) (auto split: sum.splits)

lemma filter_js_total:
  "\<forall>x\<in>set xs. \<exists>b. p x = Inr b \<Longrightarrow> filter_js p xs = Inr (filter (\<lambda>x. p x = Inr True) xs)"
  by (induction xs) (auto split: sum.splits)

lemma recipe_matches_Inl:
  "recipe_matches lc cat s r = Inl e \<Longrightarrow>
     e = TypeError \<and> lc (trim s) \<noteq> [] \<and> (name_ko r = None \<or> name_en r = None)"
  by (auto simp: recipe_matches_def Let_def split: if_splits option.splits)

lemma recipe_matches_named:
  "name_ko r \<noteq> None \<Longrightarrow> name_en r \<noteq> None \<Longrightarrow>
   recipe_matches lc cat s r = Inr (keyword_visible lc cat s r)"
  by (auto simp: recipe_matches_def keyword_visible_def Let_def includes_js_sublist)

lemmas example_simps =
  page_def fish_def cake_def getFilteredRecipes_def recipe_matches_def trim_def js_def
  ascii_toLowerCase_def is_js_whitespace_def Let_def

text \<open>
  C1, as stated, fails: with the search text of one space and the category \<open>all\<close>, both
  recipes are visible, while the specification's predicate rejects the fish dish, because
  the search text is not empty and no name contains a space.
\<close>

theorem visible_untrimmed_counterexample:
  "getFilteredRecipes ascii_toLowerCase (page (js ''all'') (js '' '') []) = Inr [fish, cake]
   \<and> \<not> spec_visible ascii_toLowerCase (js ''all'') (js '' '') fish"
  by (simp add: example_simps spec_visible_def sublist_Cons_right)

text \<open>
  C1, amended: the script trims the search text before it lowercases it. When every
  recipe of the catalog has both names, the visible subset is the catalog filtered by:
  the category is \<open>all\<close> or equals \<open>category_en\<close>, and the keyword (the search text trimmed,
  then lowercased) is empty or occurs in the lowercased \<open>name_ko\<close> or in the lowercased
  \<open>name_en\<close>. So a recipe is visible if and only if it is in the catalog and passes this test.
\<close>

theorem getFilteredRecipes_visible_iff:
  assumes "\<forall>r\<in>set (allRecipes st). name_ko r \<noteq> None \<and> name_en r \<noteq> None"
  shows "\<exists>visible. getFilteredRecipes toLowerCase st = Inr visible
           \<and> visible = filter (keyword_visible toLowerCase (currentCategory st) (searchText st))
                         (allRecipes st)
           \<and> (\<forall>r. r \<in> set visible \<longleftrightarrow>
                  r \<in> set (allRecipes st)
                  \<and> keyword_visible toLowerCase (currentCategory st) (searchText st) r)"
proof -
  let ?p = "recipe_matches toLowerCase (currentCategory st) (searchText st)"
  let ?q = "keyword_visible toLowerCase (currentCategory st) (searchText st)"
  have named: "?p r = Inr (?q r)" if "r \<in> set (allRecipes st)" for r
    using assms that by (simp add: recipe_matches_named)
  then have "\<forall>r\<in>set (allRecipes st). \<exists>b. ?p r = Inr b" by blast
  then have "filter_js ?p (allRecipes st) = Inr (filter (\<lambda>r. ?p r = Inr True) (allRecipes st))"
    by (rule filter_js_total)
  moreover have "filter (\<lambda>r. ?p r = Inr True) (allRecipes st) = filter ?q (allRecipes st)"
    by (rule filter_cong) (simp_all add: named)
  ultimately have "getFilteredRecipes toLowerCase st = Inr (filter ?q (allRecipes st))"
    by (simp add: getFilteredRecipes_def)
  then show ?thesis by simp
qed

theorem getFilteredRecipes_visible_iff_witness:
  "list_all (\<lambda>r. name_ko r \<noteq> None \<and> name_en r \<noteq> None)
     (allRecipes (page (js ''all'') (js '' ca '') []))
   \<and> getFilteredRecipes ascii_toLowerCase (page (js ''all'') (js '' ca '') []) = Inr [cake]
   \<and> keyword_visible ascii_toLowerCase (js ''all'') (js '' ca '') cake
   \<and> \<not> keyword_visible ascii_toLowerCase (js ''all'') (js '' ca '') fish"
  using getFilteredRecipes_visible_iff [of "page (js ''all'') (js '' ca '') []" ascii_toLowerCase]
  by (simp add: example_simps keyword_visible_def sublist_Cons_right)

text \<open>
  C2: whenever \<open>getFilteredRecipes\<close> returns, the visible recipes are a subsequence of the
  catalog: the recipes at some set of positions of the catalog, each position once, in the
  order of the catalog; and if no id occurs twice in the catalog, none does among the
  visible recipes. It returns unless a recipe lacks a name while a keyword is searched
  for; then it throws a \<open>TypeError\<close>.
\<close>

theorem getFilteredRecipes_subsequence:
  "case getFilteredRecipes toLowerCase st of
     Inr visible \<Rightarrow>
       subseq visible (allRecipes st)
       \<and> (\<exists>I. visible = nths (allRecipes st) I)
       \<and> (distinct (map id_field (allRecipes st)) \<longrightarrow> distinct (map id_field visible))
   | Inl e \<Rightarrow>
       e = TypeError \<and> toLowerCase (trim (searchText st)) \<noteq> []
       \<and> (\<exists>r\<in>set (allRecipes st). name_ko r = None \<or> name_en r = None)"
proof (cases "getFilteredRecipes toLowerCase st")
  case (Inl e)
  then obtain r where "r \<in> set (allRecipes st)"
    "recipe_matches toLowerCase (currentCategory st) (searchText st) r = Inl e"
    unfolding getFilteredRecipes_def by (blast dest: filter_js_Inl)
  with Inl show ?thesis by (auto dest: recipe_matches_Inl)
next
  case (Inr visible)
  let ?p = "\<lambda>x. recipe_matches toLowerCase (currentCategory st) (searchText st) x = Inr True"
  from Inr have v: "visible = filter ?p (allRecipes st)"
    unfolding getFilteredRecipes_def by (rule filter_js_Inr)
  have a: "subseq visible (allRecipes st)" unfolding v by simp
  have b: "\<exists>I. visible = nths (allRecipes st) I"
    unfolding v by (rule exI) (rule filter_eq_nths)
  have c: "distinct (map id_field visible)" if "distinct (map id_field (allRecipes st))"
    using that unfolding v by (rule distinct_map_filter)
  from a b c show ?thesis unfolding Inr by simp
qed

theorem getFilteredRecipes_subsequence_witness:
  "distinct (map id_field (allRecipes (page (js ''Dessert'') [] [])))
   \<and> getFilteredRecipes ascii_toLowerCase (page (js ''Dessert'') [] []) = Inr [cake]
   \<and> subseq [cake] (allRecipes (page (js ''Dessert'') [] []))
   \<and> distinct (map id_field [cake])"
  using getFilteredRecipes_subsequence [of ascii_toLowerCase "page (js ''Dessert'') [] []"]
  by (simp add: example_simps)

section \<open>The status line\<close>

lemma digits_value_snoc: "digits_value (ds @ [c]) = digits_value ds * 10 + (c - 0x30)"
  by (simp add: digits_value_def)

lemma digits_value_decimal: "digits_value (decimal n) = n"
proof (induction n rule: decimal.induct)
  case (1 n)
  show ?case
  proof (cases "n < 10")
    case True
    then show ?thesis by (simp add: decimal.simps [of n] digits_value_def)
  next
    case False
    with 1 show ?thesis by (simp add: decimal.simps [of n] digits_value_snoc)
  qed
qed

lemma decimal_digits: "list_all is_digit (decimal n)"
proof (induction n rule: decimal.induct)
  case (1 n)
  show ?case
  proof (cases "n < 10")
    case True
    then show ?thesis by (simp add: decimal.simps [of n] is_digit_def)
  next
    case False
    with 1 show ?thesis by (simp add: decimal.simps [of n] is_digit_def)
  qed
qed

lemma decimal_inject: "decimal n = decimal m \<Longrightarrow> n = m"
  by (metis digits_value_decimal)

lemma digits_then_other:
  assumes "list_all is_digit xs" "list_all is_digit ys" "\<not> is_digit a"
    and "xs @ a # r = ys @ a # r'"
  shows "xs = ys \<and> r = r'"
proof -
  have "takeWhile is_digit (xs @ a # r) = xs" "takeWhile is_digit (ys @ a # r') = ys"
    using assms(1-3) by (simp_all add: takeWhile_append2 list_all_iff)
  with assms(4) have "xs = ys" by simp
  with assms(4) show ?thesis by simp
qed

text \<open>The status line shows its two counts without ambiguity.\<close>

lemma stats_line_inject:
  assumes "stats_line n m = stats_line n' m'"
  shows "n = n' \<and> m = m'"
proof -
  have nd: "\<not> is_digit 0xAC1C" by (simp add: is_digit_def)
  from assms have
    "decimal n @ 0xAC1C # ([0x20, 0x7C, 0x20, 0xBCF4, 0xC720, 0x20] @ decimal m @ [0xAC1C])
     = decimal n' @ 0xAC1C # ([0x20, 0x7C, 0x20, 0xBCF4, 0xC720, 0x20] @ decimal m' @ [0xAC1C])"
    by (simp add: stats_line_def)
  from digits_then_other [OF decimal_digits decimal_digits nd this]
  have 1: "decimal n = decimal n'" and 2: "decimal m @ [0xAC1C] = decimal m' @ [0xAC1C]"
    by simp_all
  from 2 have "decimal m = decimal m'" by simp
  with 1 show ?thesis by (simp add: decimal_inject)
qed

lemma set_has_id [simp]: "set_has s (id_json i) = (id_json i \<in> set s)"
  by (cases i) (simp_all add: set_has_def is_primitive_def)

text \<open>
  C4: \<open>renderStats\<close> writes the status line made of the code units of the word for
  "shown" and a space, the decimal digits of the number of visible recipes, the counter
  word, \<open> | \<close>, the word for "owned" and a space, the decimal digits of the number of
  positions of the visible list whose recipe's id is in the ownership set, and the counter
  word. The digits read back as these two numbers.
\<close>

theorem renderStats_counts:
  "stats (renderStats visible st) =
     [0xD45C, 0xC2DC, 0x20] @ decimal (length visible)
     @ [0xAC1C, 0x20, 0x7C, 0x20, 0xBCF4, 0xC720, 0x20]
     @ decimal (card {i. i < length visible
                        \<and> id_json (id_field (visible ! i)) \<in> set (ownedIds st)})
     @ [0xAC1C]
   \<and> digits_value (decimal (length visible)) = length visible
   \<and> digits_value (decimal (card {i. i < length visible
          \<and> id_json (id_field (visible ! i)) \<in> set (ownedIds st)}))
       = card {i. i < length visible \<and> id_json (id_field (visible ! i)) \<in> set (ownedIds st)}"
  by (simp add: renderStats_def stats_line_def length_filter_conv_card digits_value_decimal)

text \<open>The scenario of the specification: both recipes shown, both owned.\<close>

theorem renderStats_counts_witness:
  "stats (renderStats [fish, cake] (page (js ''all'') [] [JNum 1, JNum 2])) =
     [0xD45C, 0xC2DC, 0x20, 0x32, 0xAC1C, 0x20, 0x7C, 0x20, 0xBCF4, 0xC720, 0x20, 0x32, 0xAC1C]"
  using renderStats_counts [of "[fish, cake]" "page (js ''all'') [] [JNum 1, JNum 2]"]
  by (simp add: renderStats_def stats_line_def page_def fish_def cake_def decimal.simps)

text \<open>
  C10: whatever two counts the status line written by \<open>renderStats\<close> shows, the first is
  the number of visible recipes and the second, the owned count, is at most the first;
  with no visible recipe the owned count is 0.
\<close>

theorem renderStats_owned_le_visible:
  assumes "stats (renderStats visible st) = stats_line visibleCount ownedCount"
  shows "visibleCount = length visible \<and> ownedCount \<le> visibleCount
         \<and> (visible = [] \<longrightarrow> ownedCount = 0)"
proof -
  from assms have
    "stats_line (length visible)
       (length (filter (\<lambda>recipe. set_has (ownedIds st) (id_json (id_field recipe))) visible))
     = stats_line visibleCount ownedCount"
    by (simp add: renderStats_def)
  then have "length visible = visibleCount"
    "length (filter (\<lambda>recipe. set_has (ownedIds st) (id_json (id_field recipe))) visible)
     = ownedCount"
    by (auto dest: stats_line_inject)
  then show ?thesis by (auto simp del: set_has_id)
qed

theorem renderStats_owned_le_visible_witness:
  "stats (renderStats [] (page (js ''Drink'') [] [JNum 2])) = stats_line 0 0
   \<and> stats (renderStats [cake] (page (js ''Dessert'') [] [JNum 2])) = stats_line 1 1
   \<and> (1::nat) = length [cake] \<and> (1::nat) \<le> 1 \<and> (0::nat) = length ([] :: recipe list)"
proof -
  have a: "stats (renderStats [] (page (js ''Drink'') [] [JNum 2])) = stats_line 0 0"
    by (simp add: renderStats_def)
  have b: "stats (renderStats [cake] (page (js ''Dessert'') [] [JNum 2])) = stats_line 1 1"
    by (simp add: renderStats_def page_def cake_def set_has_def is_primitive_def)
  from renderStats_owned_le_visible [OF a] renderStats_owned_le_visible [OF b] a b
  show ?thesis by blast
qed

section \<open>Ownership toggles leave the filter alone\<close>

lemma checkbox_change_snd:
  "snd (checkbox_change lc recipe checked st) =
     (case getFilteredRecipes lc st of
        Inl e \<Rightarrow> saveOwned (st\<lparr>ownedIds := toggled recipe checked (ownedIds st)\<rparr>)
      | Inr visible \<Rightarrow>
          renderStats visible (saveOwned (st\<lparr>ownedIds := toggled recipe checked (ownedIds st)\<rparr>)))"
proof (cases "getFilteredRecipes lc st")
  case (Inl e)
  then show ?thesis
    by (simp add: checkbox_change_def saveOwned_def Let_def getFilteredRecipes_def)
next
  case (Inr visible)
  then show ?thesis
    by (simp add: checkbox_change_def saveOwned_def Let_def getFilteredRecipes_def)
qed

lemma checkbox_change_state:
  "\<exists>stats'.
     snd (checkbox_change lc recipe checked st) =
       st\<lparr>ownedIds := toggled recipe checked (ownedIds st),
          storage := Some (stringify (JArr (toggled recipe checked (ownedIds st)))),
          stats := stats'\<rparr>"
proof (cases "getFilteredRecipes lc st")
  case (Inl e)
  have "snd (checkbox_change lc recipe checked st) =
       st\<lparr>ownedIds := toggled recipe checked (ownedIds st),
          storage := Some (stringify (JArr (toggled recipe checked (ownedIds st)))),
          stats := stats st\<rparr>"
    by (simp add: checkbox_change_snd Inl saveOwned_def)
  then show ?thesis ..
next
  case (Inr visible)
  have "snd (checkbox_change lc recipe checked st) =
       st\<lparr>ownedIds := toggled recipe checked (ownedIds st),
          storage := Some (stringify (JArr (toggled recipe checked (ownedIds st)))),
          stats := stats (renderStats visible
             (saveOwned (st\<lparr>ownedIds := toggled recipe checked (ownedIds st)\<rparr>)))\<rparr>"
    by (simp add: checkbox_change_snd Inr saveOwned_def renderStats_def)
  then show ?thesis ..
qed

lemma checkbox_change_ownedIds:
  "ownedIds (snd (checkbox_change lc recipe checked st)) = toggled recipe checked (ownedIds st)"
proof -
  obtain c where "snd (checkbox_change lc recipe checked st) =
       st\<lparr>ownedIds := toggled recipe checked (ownedIds st),
          storage := Some (stringify (JArr (toggled recipe checked (ownedIds st)))),
          stats := c\<rparr>"
    using checkbox_change_state by blast
  then show ?thesis by simp
qed

lemma checkbox_change_storage:
  "storage (snd (checkbox_change lc recipe checked st)) =
     Some (stringify (JArr (toggled recipe checked (ownedIds st))))"
proof -
  obtain c where "snd (checkbox_change lc recipe checked st) =
       st\<lparr>ownedIds := toggled recipe checked (ownedIds st),
          storage := Some (stringify (JArr (toggled recipe checked (ownedIds st)))),
          stats := c\<rparr>"
    using checkbox_change_state by blast
  then show ?thesis by simp
qed

text \<open>
  C5: the listener of a checkbox changes the ownership set, the stored entry and the
  status line and nothing else: the catalog, the category, the search text and the grid
  stay as they are, for every recipe, visible or not, and for both states of the
  checkbox. So \<open>getFilteredRecipes\<close> gives the same result before and after, the same
  visible subset or the same exception.
\<close>

theorem checkbox_change_keeps_visible:
  "getFilteredRecipes lc (snd (checkbox_change lc recipe checked st)) = getFilteredRecipes lc st
   \<and> (\<exists>owned_set' stored' stats'.
      snd (checkbox_change lc recipe checked st) =
        st\<lparr>ownedIds := owned_set', storage := stored', stats := stats'\<rparr>)
   \<and> allRecipes (snd (checkbox_change lc recipe checked st)) = allRecipes st
   \<and> currentCategory (snd (checkbox_change lc recipe checked st)) = currentCategory st
   \<and> searchText (snd (checkbox_change lc recipe checked st)) = searchText st
   \<and> recipeGrid (snd (checkbox_change lc recipe checked st)) = recipeGrid st"
proof -
  obtain a b c where s: "snd (checkbox_change lc recipe checked st) =
      st\<lparr>ownedIds := a, storage := b, stats := c\<rparr>"
    using checkbox_change_state by blast
  then show ?thesis by (auto simp: getFilteredRecipes_def)
qed

theorem checkbox_change_keeps_visible_witness:
  "getFilteredRecipes ascii_toLowerCase
      (snd (checkbox_change ascii_toLowerCase fish True (page (js ''Dessert'') [] []))) = Inr [cake]
   \<and> getFilteredRecipes ascii_toLowerCase (page (js ''Dessert'') [] []) = Inr [cake]
   \<and> ownedIds (snd (checkbox_change ascii_toLowerCase fish True (page (js ''Dessert'') [] []))) = [JNum 1]"
proof -
  have w1: "getFilteredRecipes ascii_toLowerCase (page (js ''Dessert'') [] []) = Inr [cake]"
    by (simp add: example_simps)
  have w2: "ownedIds (snd (checkbox_change ascii_toLowerCase fish True (page (js ''Dessert'') [] [])))
      = [JNum 1]"
    by (simp add: checkbox_change_ownedIds toggled_def page_def fish_def set_add_def set_has_def)
  have "getFilteredRecipes ascii_toLowerCase
      (snd (checkbox_change ascii_toLowerCase fish True (page (js ''Dessert'') [] [])))
     = getFilteredRecipes ascii_toLowerCase (page (js ''Dessert'') [] [])"
    by (rule checkbox_change_keeps_visible [THEN conjunct1])
  with w1 w2 show ?thesis by (simp only: simp_thms)
qed


section \<open>Cards\<close>

lemma text_of_js_or:
  "text_of (js_or a b) = (if truthy a then the a else text_of b)"
  by (cases a) (simp_all add: js_or_def truthy_def text_of_def)

lemma text_of_Some: "text_of (Some s) = s"
  by (simp add: text_of_def)

lemma truthy_js_or: "truthy (js_or a b) = (truthy a \<or> truthy b)"
  by (simp add: js_or_def)

lemma the_js_or: "the (js_or a b) = (if truthy a then the a else the b)"
  by (simp add: js_or_def)

lemma renderRecipes_grid:
  "case getFilteredRecipes lc st of
     Inr visible \<Rightarrow>
       (\<exists>st'. renderRecipes lc st = Inr st'
          \<and> recipeGrid st' = Cards (map (\<lambda>recipe. render_card recipe (ownedIds st)) visible))
   | Inl e \<Rightarrow> renderRecipes lc st = Inl e"
  by (cases "getFilteredRecipes lc st") (simp_all add: renderRecipes_def)

text \<open>
  C8: the card of a recipe is a function of the recipe and the ownership set. Its primary
  name is \<open>name_ko\<close> when that is present and not empty, else \<open>name_en\<close> (empty text if
  absent); its category label is \<open>category_ko\<close>; its materials text is \<open>materials_ko\<close>,
  else \<open>materials_en\<close>, else \<open>-\<close>; its source text is \<open>source_ko\<close>, else \<open>source_en\<close>, else
  \<open>-\<close>; its image source is \<open>image_url\<close>, else empty; its checkbox is checked exactly
  when the id of the recipe is in the ownership set. In each case "present" is what
  \<open>||\<close> tests: a string that is there and not empty. \<open>renderRecipes\<close> fills the grid with
  the cards of the visible recipes, in their order, and fails only if
  \<open>getFilteredRecipes\<close> does.
\<close>

theorem render_card_fallbacks:
  "nameKo_text (render_card r s) = (if truthy (name_ko r) then the (name_ko r) else text_of (name_en r))
   \<and> category_text (render_card r s) = text_of (category_ko r)
   \<and> materials_text (render_card r s) =
       (if truthy (materials_ko r) then the (materials_ko r)
        else if truthy (materials_en r) then the (materials_en r) else js ''-'')
   \<and> source_text (render_card r s) =
       (if truthy (source_ko r) then the (source_ko r)
        else if truthy (source_en r) then the (source_en r) else js ''-'')
   \<and> img_src (render_card r s) = (if truthy (image_url r) then the (image_url r) else [])
   \<and> checkbox_checked (render_card r s) = (id_json (id_field r) \<in> set s)
   \<and> (case getFilteredRecipes lc st of
        Inr visible \<Rightarrow>
          (\<exists>st'. renderRecipes lc st = Inr st'
             \<and> recipeGrid st' = Cards (map (\<lambda>recipe. render_card recipe (ownedIds st)) visible))
      | Inl e \<Rightarrow> renderRecipes lc st = Inl e)"
proof -
  have 1: "nameKo_text (render_card r s) =
      (if truthy (name_ko r) then the (name_ko r) else text_of (name_en r))"
    by (simp add: render_card_def text_of_js_or)
  have 2: "category_text (render_card r s) = text_of (category_ko r)"
    by (simp add: render_card_def)
  have 3: "materials_text (render_card r s) =
       (if truthy (materials_ko r) then the (materials_ko r)
        else if truthy (materials_en r) then the (materials_en r) else js ''-'')"
    by (simp add: render_card_def text_of_js_or truthy_js_or the_js_or text_of_Some)
  have 4: "source_text (render_card r s) =
       (if truthy (source_ko r) then the (source_ko r)
        else if truthy (source_en r) then the (source_en r) else js ''-'')"
    by (simp add: render_card_def text_of_js_or truthy_js_or the_js_or text_of_Some)
  have 5: "img_src (render_card r s) = (if truthy (image_url r) then the (image_url r) else [])"
    by (simp add: render_card_def text_of_js_or text_of_Some)
  have 6: "checkbox_checked (render_card r s) = (id_json (id_field r) \<in> set s)"
    by (simp add: render_card_def)
  from 1 2 3 4 5 6 renderRecipes_grid [of lc st] show ?thesis by (intro conjI)
qed

text \<open>The fish dish has no image and no materials: empty image source, a dash.\<close>

theorem render_card_fallbacks_witness:
  "img_src (render_card fish [JNum 1]) = []
   \<and> nameKo_text (render_card fish [JNum 1]) = [0xC0DD, 0xC120]
   \<and> nameKo_text (render_card (fish\<lparr>name_ko := None\<rparr>) [JNum 1]) = js ''Fish''
   \<and> materials_text (render_card fish [JNum 1]) = js ''-''
   \<and> checkbox_checked (render_card fish [JNum 1])"
proof -
  have t: "\<not> truthy (image_url fish)" "truthy (name_ko fish)" "the (name_ko fish) = [0xC0DD, 0xC120]"
    "\<not> truthy (name_ko (fish\<lparr>name_ko := None\<rparr>))"
    "text_of (name_en (fish\<lparr>name_ko := None\<rparr>)) = js ''Fish''"
    "\<not> truthy (materials_ko fish)" "\<not> truthy (materials_en fish)"
    "id_json (id_field fish) \<in> set [JNum 1]"
    by (simp_all add: fish_def truthy_def text_of_def)
  note a = render_card_fallbacks [of fish "[JNum 1]" ascii_toLowerCase "page [] [] []"]
  note b = render_card_fallbacks [of "fish\<lparr>name_ko := None\<rparr>" "[JNum 1]" ascii_toLowerCase "page [] [] []"]
  have 1: "img_src (render_card fish [JNum 1]) = []" using a t by simp
  have 2: "nameKo_text (render_card fish [JNum 1]) = [0xC0DD, 0xC120]" using a t by simp
  have 3: "nameKo_text (render_card (fish\<lparr>name_ko := None\<rparr>) [JNum 1]) = js ''Fish''"
    using b t by simp
  have 4: "materials_text (render_card fish [JNum 1]) = js ''-''" using a t by simp
  have 5: "checkbox_checked (render_card fish [JNum 1])" using a t by simp
  from 1 2 3 4 5 show ?thesis by (intro conjI)
qed

section \<open>Loading the catalog\<close>

lemma blocked_message_instructs:
  "sublist (js ''python3 -m http.server 5500'') blocked_message
   \<and> sublist (js ''http://localhost:5500'') blocked_message"
proof -
  have "\<exists>ps ss. blocked_message = ps @ js ''python3 -m http.server 5500'' @ ss"
    unfolding blocked_message_def by (rule exI, rule exI, subst append_assoc [symmetric], rule refl)
  then have 1: "sublist (js ''python3 -m http.server 5500'') blocked_message"
    by (simp add: sublist_def)
  have "\<exists>ps ss. blocked_message = ps @ js ''http://localhost:5500'' @ ss"
    unfolding blocked_message_def
    by (rule exI [of _ "js ''index.html'' @ [0xC744, 0x20, 0xD30C, 0xC77C, 0xB85C, 0x20, 0xC9C1, 0xC811, 0x20,
       0xC5F4, 0xBA74, 0x20, 0xB370, 0xC774, 0xD130, 0x20, 0xB85C, 0xB529, 0xC774, 0x20,
       0xCC28, 0xB2E8, 0xB429, 0xB2C8, 0xB2E4, 0x2E, 0x20, 0xD130, 0xBBF8, 0xB110, 0xC5D0,
       0xC11C, 0x20, 0x60]
     @ js ''python3 -m http.server 5500'' @ [0x60, 0x20, 0xC2E4, 0xD589, 0x20, 0xD6C4, 0x20]"], rule exI, simp only: append_assoc)
  then have 2: "sublist (js ''http://localhost:5500'') blocked_message"
    by (simp add: sublist_def)
  from 1 2 show ?thesis ..
qed


text \<open>
  C7: opened from a \<open>file:\<close> address, \<open>loadRecipes\<close> throws the error whose message names
  the command \<open>python3 -m http.server 5500\<close> and the address \<open>http://localhost:5500\<close>,
  whatever \<open>fetch\<close> would have given: it is not called. Otherwise a response that is not
  \<open>ok\<close> makes it throw the error with the other message, a body that is not JSON makes
  it throw the \<open>SyntaxError\<close> of \<open>res.json()\<close>, and a parsed body becomes \<open>allRecipes\<close> as it
  is, with nothing else of the state changed.
\<close>

theorem loadRecipes_outcomes:
  "(protocol e = js ''file:'' \<longrightarrow> loadRecipes e st = Inl (Error blocked_message))
   \<and> sublist (js ''python3 -m http.server 5500'') blocked_message
   \<and> sublist (js ''http://localhost:5500'') blocked_message
   \<and> not_read_message \<noteq> blocked_message
   \<and> (protocol e \<noteq> js ''file:'' \<and> fetched e = Some res \<and> \<not> ok res \<longrightarrow>
        loadRecipes e st = Inl (Error not_read_message))
   \<and> (protocol e \<noteq> js ''file:'' \<and> fetched e = Some res \<and> ok res \<and> json_body res = None \<longrightarrow>
        loadRecipes e st = Inl SyntaxError)
   \<and> (protocol e \<noteq> js ''file:'' \<and> fetched e = Some res \<and> ok res
        \<and> json_body res = Some parsed \<longrightarrow>
        loadRecipes e st = Inr (st\<lparr>allRecipes := parsed\<rparr>))"
proof -
  have 1: "protocol e = js ''file:'' \<longrightarrow> loadRecipes e st = Inl (Error blocked_message)"
    by (simp add: loadRecipes_def)
  have 2: "not_read_message \<noteq> blocked_message"
    by (simp add: not_read_message_def blocked_message_def js_def)
  have 3: "protocol e \<noteq> js ''file:'' \<and> fetched e = Some res \<and> \<not> ok res \<longrightarrow>
        loadRecipes e st = Inl (Error not_read_message)"
    by (simp add: loadRecipes_def)
  have 4: "protocol e \<noteq> js ''file:'' \<and> fetched e = Some res \<and> ok res \<and> json_body res = None \<longrightarrow>
        loadRecipes e st = Inl SyntaxError"
    by (simp add: loadRecipes_def)
  have 5: "protocol e \<noteq> js ''file:'' \<and> fetched e = Some res \<and> ok res
        \<and> json_body res = Some parsed \<longrightarrow>
        loadRecipes e st = Inr (st\<lparr>allRecipes := parsed\<rparr>)"
    by (simp add: loadRecipes_def)
  from 1 2 3 4 5 blocked_message_instructs show ?thesis by (intro conjI) simp_all
qed

theorem loadRecipes_outcomes_witness:
  "loadRecipes \<lparr>protocol = js ''file:'', fetched = Some \<lparr>ok = True, json_body = Some [fish]\<rparr>,
                stored_entry = None\<rparr> (page [] [] [])
     = Inl (Error blocked_message)
   \<and> loadRecipes \<lparr>protocol = js ''http:'', fetched = Some \<lparr>ok = False, json_body = Some [fish]\<rparr>,
                  stored_entry = None\<rparr> (page [] [] [])
     = Inl (Error not_read_message)
   \<and> loadRecipes \<lparr>protocol = js ''http:'', fetched = Some \<lparr>ok = True, json_body = None\<rparr>,
                  stored_entry = None\<rparr> (page [] [] [])
     = Inl SyntaxError
   \<and> loadRecipes \<lparr>protocol = js ''http:'',
                  fetched = Some \<lparr>ok = True, json_body = Some [cake, cake]\<rparr>,
                  stored_entry = None\<rparr> (page [] [] [])
     = Inr ((page [] [] [])\<lparr>allRecipes := [cake, cake]\<rparr>)"
proof -
  have p: "js ''http:'' \<noteq> js ''file:''" by (simp add: js_def)
  have 1: "loadRecipes \<lparr>protocol = js ''file:'',
                fetched = Some \<lparr>ok = True, json_body = Some [fish]\<rparr>,
                stored_entry = None\<rparr> (page [] [] [])
     = Inl (Error blocked_message)"
    using loadRecipes_outcomes [THEN conjunct1,
        of "\<lparr>protocol = js ''file:'', fetched = Some \<lparr>ok = True, json_body = Some [fish]\<rparr>,
             stored_entry = None\<rparr>" "page [] [] []"]
    by simp
  have 2: "loadRecipes \<lparr>protocol = js ''http:'',
                  fetched = Some \<lparr>ok = False, json_body = Some [fish]\<rparr>,
                  stored_entry = None\<rparr> (page [] [] [])
     = Inl (Error not_read_message)"
    using p loadRecipes_outcomes [THEN conjunct2, THEN conjunct2, THEN conjunct2, THEN conjunct2,
        THEN conjunct1,
        of "\<lparr>protocol = js ''http:'', fetched = Some \<lparr>ok = False, json_body = Some [fish]\<rparr>,
             stored_entry = None\<rparr>" "\<lparr>ok = False, json_body = Some [fish]\<rparr>" "page [] [] []"]
    by simp
  have 3: "loadRecipes \<lparr>protocol = js ''http:'', fetched = Some \<lparr>ok = True, json_body = None\<rparr>,
                  stored_entry = None\<rparr> (page [] [] [])
     = Inl SyntaxError"
    using p loadRecipes_outcomes [THEN conjunct2, THEN conjunct2, THEN conjunct2, THEN conjunct2,
        THEN conjunct2, THEN conjunct1,
        of "\<lparr>protocol = js ''http:'', fetched = Some \<lparr>ok = True, json_body = None\<rparr>,
             stored_entry = None\<rparr>" "\<lparr>ok = True, json_body = None\<rparr>" "page [] [] []"]
    by simp
  have 4: "loadRecipes \<lparr>protocol = js ''http:'',
                  fetched = Some \<lparr>ok = True, json_body = Some [cake, cake]\<rparr>,
                  stored_entry = None\<rparr> (page [] [] [])
     = Inr ((page [] [] [])\<lparr>allRecipes := [cake, cake]\<rparr>)"
    using p loadRecipes_outcomes [THEN conjunct2, THEN conjunct2, THEN conjunct2, THEN conjunct2,
        THEN conjunct2, THEN conjunct2,
        of "\<lparr>protocol = js ''http:'', fetched = Some \<lparr>ok = True, json_body = Some [cake, cake]\<rparr>,
             stored_entry = None\<rparr>" "\<lparr>ok = True, json_body = Some [cake, cake]\<rparr>"
           "[cake, cake]" "page [] [] []"]
    by simp
  from 1 2 3 4 show ?thesis by (intro conjI)
qed

section \<open>Reading back what \<open>JSON.stringify\<close> wrote\<close>

lemma run_append:
  "run (xs @ ys) st = (case run xs st of Inl e \<Rightarrow> Inl e | Inr st' \<Rightarrow> run ys st')"
  by (induction xs arbitrary: st) (auto split: sum.splits)

lemma hex_value_hex_digit: "k < 16 \<Longrightarrow> hex_value (hex_digit k) = Some k"
  by (auto simp: hex_value_def hex_digit_def)

lemma hex4_value:
  assumes "c < 65536"
  shows "((c div 4096 mod 16 * 16 + c div 256 mod 16) * 16 + c div 16 mod 16) * 16 + c mod 16 = (c::nat)"
proof -
  have a: "c div 256 = c div 16 div 16" "c div 4096 = c div 16 div 16 div 16"
    by (simp_all add: div_mult2_eq)
  have "c div 4096 < 16" using assms by simp
  then have b: "c div 4096 mod 16 = c div 4096" by simp
  show ?thesis
    unfolding b unfolding a by (simp add: div_mult_mod_eq)
qed

lemma run_unicode_escape:
  assumes "c < 65536"
  shows "run (unicode_escape c) (MStr key acc, stk, fl) = Inr (MStr key (acc @ [c]), stk, fl)"
proof -
  have "run (unicode_escape c) (MStr key acc, stk, fl) =
      Inr (MStr key (acc @ [((c div 4096 mod 16 * 16 + c div 256 mod 16) * 16 + c div 16 mod 16) * 16
                            + c mod 16]), stk, fl)"
    by (simp add: unicode_escape_def hex_value_hex_digit)
  then show ?thesis by (simp only: hex4_value [OF assms])
qed

lemma run_quote_unit:
  "run (quote_unit c) (MStr key acc, stk, fl) = Inr (MStr key (acc @ [c]), stk, fl)"
proof (cases "c < 0x20 \<or> is_high_surrogate c \<or> is_low_surrogate c")
  case True
  then have "c < 65536" by (auto simp: is_high_surrogate_def is_low_surrogate_def)
  note u = run_unicode_escape [OF this]
  show ?thesis
    by (simp add: quote_unit_def u)
next
  case False
  then show ?thesis by (simp add: quote_unit_def)
qed

lemma run_surrogate:
  "is_high_surrogate c \<or> is_low_surrogate c \<Longrightarrow>
   step c (MStr key acc, stk, fl) = Inr (MStr key (acc @ [c]), stk, fl)"
  by (auto simp: is_high_surrogate_def is_low_surrogate_def)

lemma run_quote_body:
  "run (quote_body s) (MStr key acc, stk, fl) = Inr (MStr key (acc @ s), stk, fl)"
proof (induction s arbitrary: acc rule: quote_body.induct)
  case 1
  show ?case by simp
next
  case (2 c)
  show ?case by (simp add: run_quote_unit)
next
  case (3 c d cs)
  show ?case
  proof (cases "is_high_surrogate c \<and> is_low_surrogate d")
    case True
    then have e: "quote_body (c # d # cs) = c # d # quote_body cs" by simp
    from True have
      "step c (MStr key acc, stk, fl) = Inr (MStr key (acc @ [c]), stk, fl)"
      "step d (MStr key (acc @ [c]), stk, fl) = Inr (MStr key ((acc @ [c]) @ [d]), stk, fl)"
      by (simp_all add: run_surrogate del: step.simps)
    then have "run (quote_body (c # d # cs)) (MStr key acc, stk, fl)
        = run (quote_body cs) (MStr key ((acc @ [c]) @ [d]), stk, fl)"
      unfolding e by (simp only: run.simps sum.case)
    also have "\<dots> = Inr (MStr key (((acc @ [c]) @ [d]) @ cs), stk, fl)"
      using True by (rule "3.IH"(1))
    finally show ?thesis by simp
  next
    case False
    then have e: "quote_body (c # d # cs) = quote_unit c @ quote_body (d # cs)" by auto
    have "run (quote_body (c # d # cs)) (MStr key acc, stk, fl)
        = run (quote_body (d # cs)) (MStr key (acc @ [c]), stk, fl)"
      unfolding e by (simp only: run_append run_quote_unit sum.case)
    also have "\<dots> = Inr (MStr key ((acc @ [c]) @ d # cs), stk, fl)"
      using False by (rule "3.IH"(2))
    finally show ?thesis by simp
  qed
qed

lemma run_QuoteJSONString:
  assumes "m = MValue \<or> m = MValueOrClose"
  shows "run (QuoteJSONString s) (m, stk, fl) =
           Inr (fst (complete (JStr s) stk), snd (complete (JStr s) stk), fl)"
proof -
  have "step 0x22 (m, stk, fl) = Inr (MStr False [], stk, fl)"
    using assms by (auto simp: start_value_def is_json_ws_def)
  then have "run (QuoteJSONString s) (m, stk, fl) = run (quote_body s @ [0x22]) (MStr False [], stk, fl)"
    by (simp add: QuoteJSONString_def del: step.simps)
  also have "\<dots> = run [0x22] (MStr False s, stk, fl)"
    by (simp add: run_append run_quote_body)
  also have "\<dots> = Inr (fst (complete (JStr s) stk), snd (complete (JStr s) stk), fl)"
    by (simp split: prod.splits)
  finally show ?thesis .
qed


lemma step_first_digit:
  assumes "m = MValue \<or> m = MValueOrClose" "1 \<le> d" "d \<le> 9"
  shows "step (0x30 + d) (m, stk, fl) = Inr (MNum NInt False d, stk, fl)"
  using assms by (auto simp: start_value_def is_json_ws_def is_digit_def)

lemma step_first_digit_minus:
  assumes "1 \<le> d" "d \<le> 9"
  shows "step (0x30 + d) (MNum NMinus True 0, stk, fl) = Inr (MNum NInt True d, stk, fl)"
  using assms by (auto simp: is_digit_def)

lemma step_next_digit:
  assumes "d \<le> 9"
  shows "step (0x30 + d) (MNum NInt neg n, stk, fl) = Inr (MNum NInt neg (n * 10 + d), stk, fl)"
  using assms by (auto simp: is_digit_def)

lemma run_decimal:
  assumes first: "\<And>d. 1 \<le> d \<Longrightarrow> d \<le> 9 \<Longrightarrow> step (0x30 + d) st0 = Inr (MNum NInt neg d, stk, fl)"
  shows "0 < n \<Longrightarrow> run (decimal n) st0 = Inr (MNum NInt neg n, stk, fl)"
proof (induction n rule: decimal.induct)
  case (1 n)
  show ?case
  proof (cases "n < 10")
    case True
    with 1(2) have "step (0x30 + n) st0 = Inr (MNum NInt neg n, stk, fl)"
      by (intro first) simp_all
    with True show ?thesis by (simp add: decimal.simps [of n] del: step.simps)
  next
    case False
    then have "0 < n div 10" by simp
    with False 1(1) have "run (decimal (n div 10)) st0 = Inr (MNum NInt neg (n div 10), stk, fl)"
      by simp
    moreover have "step (0x30 + n mod 10) (MNum NInt neg (n div 10), stk, fl)
        = Inr (MNum NInt neg (n div 10 * 10 + n mod 10), stk, fl)"
      by (rule step_next_digit) simp
    ultimately show ?thesis
      using False by (simp add: decimal.simps [of n] run_append del: step.simps)
  qed
qed

lemma run_number:
  assumes "m = MValue \<or> m = MValueOrClose" "\<bar>n\<bar> \<le> 9007199254740992"
  shows "\<exists>ns neg mag. run (number_to_string n) (m, stk, fl) = Inr (MNum ns neg mag, stk, fl)
           \<and> (ns = NZero \<or> ns = NInt) \<and> num_value ns neg mag = Some (JNum n)"
proof -
  consider "n = 0" | "0 < n" | "n < 0" by linarith
  then show ?thesis
  proof cases
    case 1
    have "run (number_to_string 0) (m, stk, fl) = Inr (MNum NZero False 0, stk, fl)"
      using assms(1)
      by (auto simp: number_to_string_def decimal.simps [of 0] start_value_def is_json_ws_def)
    moreover have "num_value NZero False 0 = Some (JNum 0)" by (simp add: num_value_def)
    ultimately show ?thesis using 1 by blast
  next
    case 2
    then have "0 < nat n" by simp
    then have "run (decimal (nat n)) (m, stk, fl) = Inr (MNum NInt False (nat n), stk, fl)"
      by (rule run_decimal [rotated]) (rule step_first_digit [OF assms(1)])
    with 2 have "run (number_to_string n) (m, stk, fl) = Inr (MNum NInt False (nat n), stk, fl)"
      by (simp add: number_to_string_def)
    moreover have "num_value NInt False (nat n) = Some (JNum n)"
      using 2 assms(2) by (simp add: num_value_def)
    ultimately show ?thesis by blast
  next
    case 3
    then have "0 < nat (- n)" by simp
    then have "run (decimal (nat (- n))) (MNum NMinus True 0, stk, fl)
        = Inr (MNum NInt True (nat (- n)), stk, fl)"
      by (rule run_decimal [rotated]) (rule step_first_digit_minus)
    moreover have "step 0x2D (m, stk, fl) = Inr (MNum NMinus True 0, stk, fl)"
      using assms(1) by (auto simp: start_value_def is_json_ws_def)
    ultimately have "run (number_to_string n) (m, stk, fl) = Inr (MNum NInt True (nat (- n)), stk, fl)"
      using 3 by (simp add: number_to_string_def del: step.simps)
    moreover have "num_value NInt True (nat (- n)) = Some (JNum n)"
      using 3 assms(2) by (simp add: num_value_def)
    ultimately show ?thesis by blast
  qed
qed

lemma step_end_number:
  assumes "ns = NZero \<or> ns = NInt" "num_value ns neg mag = Some v" "d = 0x2C \<or> d = 0x5D"
  shows "step d (MNum ns neg mag, FArr vs # stk, fl) = step d (MAfter, FArr (vs @ [v]) # stk, fl)"
  using assms by (auto simp: end_number_def is_digit_def)


lemma run_literal:
  assumes "m = MValue \<or> m = MValueOrClose"
  shows "run (js ''null'') (m, stk, fl) = Inr (fst (complete JNull stk), snd (complete JNull stk), fl)"
    and "run (js ''true'') (m, stk, fl)
           = Inr (fst (complete (JBool True) stk), snd (complete (JBool True) stk), fl)"
    and "run (js ''false'') (m, stk, fl)
           = Inr (fst (complete (JBool False) stk), snd (complete (JBool False) stk), fl)"
  using assms by (auto simp: js_def start_value_def is_json_ws_def is_digit_def split: prod.splits)

lemma run_value_in_array:
  assumes m: "m = MValue \<or> m = MValueOrClose" and v: "storable v" and d: "d = 0x2C \<or> d = 0x5D"
  shows "run (stringify v @ d # rest) (m, FArr vs # stk, fl)
           = run (d # rest) (MAfter, FArr (vs @ [v]) # stk, fl)"
proof (cases v)
  case JNull
  with run_literal(1) [OF m] show ?thesis by (simp add: run_append)
next
  case (JBool b)
  with run_literal(2,3) [OF m] show ?thesis by (simp add: run_append)
next
  case (JNum n)
  with v have "\<bar>n\<bar> \<le> 9007199254740992" by (simp add: storable_def)
  from run_number [OF m this] obtain ns neg mag where
    r: "run (number_to_string n) (m, FArr vs # stk, fl) = Inr (MNum ns neg mag, FArr vs # stk, fl)"
    and ns: "ns = NZero \<or> ns = NInt" and nv: "num_value ns neg mag = Some (JNum n)"
    by blast
  have "run (stringify v @ d # rest) (m, FArr vs # stk, fl)
      = run (d # rest) (MNum ns neg mag, FArr vs # stk, fl)"
    using JNum r by (simp add: run_append)
  also have "\<dots> = run (d # rest) (MAfter, FArr (vs @ [v]) # stk, fl)"
    using step_end_number [OF ns nv d] JNum by (simp only: run.simps)
  finally show ?thesis .
next
  case (JStr s)
  with run_QuoteJSONString [OF m] show ?thesis by (simp add: run_append)
next
  case (JArr x)
  with v show ?thesis by (simp add: storable_def)
next
  case (JObj x)
  with v show ?thesis by (simp add: storable_def)
qed

lemma join_comma_Cons: "ys \<noteq> [] \<Longrightarrow> join_comma (y # ys) = y @ 0x2C # join_comma ys"
  by (cases ys) simp_all

lemma run_elements:
  assumes "xs \<noteq> []"
  shows "list_all storable xs \<Longrightarrow> m = MValue \<or> m = MValueOrClose \<Longrightarrow>
     run (join_comma (map stringify xs) @ [0x5D]) (m, FArr vs # stk, fl)
       = Inr (fst (complete (JArr (vs @ xs)) stk), snd (complete (JArr (vs @ xs)) stk), fl)"
  using assms
proof (induction xs arbitrary: vs m rule: list_nonempty_induct)
  case (single x)
  then have "run (stringify x @ [0x5D]) (m, FArr vs # stk, fl)
      = run [0x5D] (MAfter, FArr (vs @ [x]) # stk, fl)"
    by (intro run_value_in_array) simp_all
  then show ?case by (simp add: is_json_ws_def split: prod.splits)
next
  case (cons x xs)
  from cons.hyps have e: "join_comma (map stringify (x # xs)) @ [0x5D]
      = stringify x @ 0x2C # (join_comma (map stringify xs) @ [0x5D])"
    by (simp add: join_comma_Cons)
  from cons.prems have "run (stringify x @ 0x2C # (join_comma (map stringify xs) @ [0x5D]))
        (m, FArr vs # stk, fl)
      = run (0x2C # (join_comma (map stringify xs) @ [0x5D])) (MAfter, FArr (vs @ [x]) # stk, fl)"
    by (intro run_value_in_array) simp_all
  also have "\<dots> = run (join_comma (map stringify xs) @ [0x5D]) (MValue, FArr (vs @ [x]) # stk, fl)"
    by (simp add: is_json_ws_def)
  also have "\<dots> = Inr (fst (complete (JArr ((vs @ [x]) @ xs)) stk),
      snd (complete (JArr ((vs @ [x]) @ xs)) stk), fl)"
    using cons.prems by (intro cons.IH) simp_all
  finally show ?case unfolding e by simp
qed

lemma JSON_parse_stringify_array:
  assumes "list_all storable xs"
  shows "JSON_parse (stringify (JArr xs)) = Inr (JArr xs)"
proof (cases "xs = []")
  case True
  then show ?thesis
    by (simp add: JSON_parse_def start_value_def is_json_ws_def is_digit_def)
next
  case False
  have "step 0x5B (MValue, [], False) = Inr (MValueOrClose, [FArr []], False)"
    by (simp add: start_value_def is_json_ws_def)
  then have "run (stringify (JArr xs)) (MValue, [], False)
      = run (join_comma (map stringify xs) @ [0x5D]) (MValueOrClose, [FArr []], False)"
    by (simp del: step.simps)
  also have "\<dots> = Inr (fst (complete (JArr ([] @ xs)) []), snd (complete (JArr ([] @ xs)) []), False)"
    using False assms by (intro run_elements) simp_all
  finally show ?thesis by (simp add: JSON_parse_def)
qed

lemma set_add_new: "v \<notin> set s \<Longrightarrow> set_add s v = s @ [v]"
  by (simp add: set_add_def set_has_def)

lemma foldl_set_add_distinct:
  "distinct (acc @ xs) \<Longrightarrow> foldl set_add acc xs = acc @ xs"
  by (induction xs arbitrary: acc) (simp_all add: set_add_new)

lemma ownedIds_initial_stringify:
  assumes "list_all storable xs" "distinct xs"
  shows "ownedIds_initial (Some (stringify (JArr xs))) = Inr xs"
proof -
  have "stringify (JArr xs) \<noteq> []" by simp
  then have "ownedIds_initial (Some (stringify (JArr xs)))
      = (case JSON_parse (stringify (JArr xs)) of Inl e \<Rightarrow> Inl e | Inr v \<Rightarrow> new_Set v)"
    by (simp add: ownedIds_initial_def del: stringify.simps)
  also have "\<dots> = new_Set (JArr xs)"
    by (simp only: JSON_parse_stringify_array [OF assms(1)] sum.case)
  also have "\<dots> = Inr xs"
    using assms(2) by (simp add: foldl_set_add_distinct)
  finally show ?thesis .
qed

lemma ownedIds_initial_absent:
  "ownedIds_initial None = Inr []" "ownedIds_initial (Some []) = Inr []"
  by (simp_all add: ownedIds_initial_def JSON_parse_def js_def start_value_def is_json_ws_def)

text \<open>Text that is not JSON, a truncated array, and JSON that is not a sequence.\<close>

lemma ownedIds_initial_not_json:
  "ownedIds_initial (Some (js ''oops'')) = Inl SyntaxError"
  by (simp add: ownedIds_initial_def JSON_parse_def js_def start_value_def is_json_ws_def is_digit_def)

lemma ownedIds_initial_truncated:
  "ownedIds_initial (Some (js ''[1,2'')) = Inl SyntaxError"
  by (simp add: ownedIds_initial_def JSON_parse_def js_def start_value_def is_json_ws_def is_digit_def
      num_accepting_def end_number_def num_value_def)

lemma ownedIds_initial_object:
  "ownedIds_initial (Some (js ''{}'')) = Inl TypeError"
  by (simp add: ownedIds_initial_def JSON_parse_def js_def start_value_def is_json_ws_def is_digit_def)

section \<open>The ownership set and its stored entry\<close>

lemma id_json_inject: "id_json i = id_json j \<Longrightarrow> i = j"
  by (cases i; cases j) simp_all

lemma distinct_map_id_json: "distinct ids \<Longrightarrow> distinct (map id_json ids)"
  by (simp add: distinct_map inj_on_def id_json_inject)

lemma is_primitive_id_json [simp]: "is_primitive (id_json i)"
  by (cases i) (simp_all add: is_primitive_def)

lemma toggled_eq:
  "toggled r c s =
     (if c then (if id_json (id_field r) \<in> set s then s else s @ [id_json (id_field r)])
      else remove1 (id_json (id_field r)) s)"
  by (simp add: toggled_def set_add_def set_delete_def remove1_idem)

lemma toggled_distinct: "distinct s \<Longrightarrow> distinct (toggled r c s)"
  by (simp add: toggled_eq)

lemma toggled_distinct_primitive:
  "distinct (filter is_primitive s) \<Longrightarrow> distinct (filter is_primitive (toggled r c s))"
  by (simp add: toggled_eq filter_remove1)

lemma toggled_storable:
  "list_all storable s \<Longrightarrow> storable (id_json (id_field r)) \<Longrightarrow> list_all storable (toggled r c s)"
  by (auto simp: toggled_eq list_all_iff dest: notin_set_remove1)

lemma toggled_on_off:
  "id_json (id_field r) \<notin> set s \<Longrightarrow> toggled r False (toggled r True s) = s"
  by (simp add: toggled_eq remove1_append)

lemma set_add_distinct_primitive:
  "distinct (filter is_primitive s) \<Longrightarrow> distinct (filter is_primitive (set_add s v))"
  by (auto simp: set_add_def set_has_def)

lemma foldl_set_add_distinct_primitive:
  "distinct (filter is_primitive acc) \<Longrightarrow> distinct (filter is_primitive (foldl set_add acc vs))"
  by (induction vs arbitrary: acc) (simp_all add: set_add_distinct_primitive)

lemma ownedIds_initial_distinct_primitive:
  assumes "ownedIds_initial stored = Inr s"
  shows "distinct (filter is_primitive s)"
proof -
  from assms obtain v where "new_Set v = Inr s"
    by (auto simp: ownedIds_initial_def split: sum.splits)
  then show ?thesis
    by (cases v) (auto simp: foldl_set_add_distinct_primitive)
qed

text \<open>
  C3: an entry that does not exist gives the empty set. An entry that cannot be parsed
  does not: for the stored text \<open>[1,2\<close>, a truncated array, line 6 throws a \<open>SyntaxError\<close>,
  and the script ends there, before \<open>init\<close> is called, so that nothing is loaded or shown.
\<close>

theorem ownedIds_initial_corrupt_throws:
  "ownedIds_initial None = Inr []
   \<and> ownedIds_initial (Some (js ''[1,2'')) = Inl SyntaxError
   \<and> script ascii_toLowerCase
        \<lparr>protocol = js ''http:'', fetched = Some \<lparr>ok = True, json_body = Some [fish, cake]\<rparr>,
         stored_entry = Some (js ''[1,2'')\<rparr> = Inl SyntaxError"
  by (simp add: ownedIds_initial_absent ownedIds_initial_truncated script_def)

text \<open>
  C6: let the ownership set hold ids, each once, in any order, strings or integers of
  magnitude at most \<open>2^53\<close>. Then what line 6 makes of the entry written by \<open>saveOwned\<close>
  is the ownership set, with the same elements in the same order; for another order of
  insertion it is the same set of ids. And when the checkbox of a recipe that is not owned
  is checked and then unchecked, the set and the stored entry are what \<open>saveOwned\<close> writes
  for the set before the two changes, and the entry reads back as that set.
\<close>

theorem saveOwned_reload_roundtrip:
  assumes "ownedIds st = map id_json ids" and "distinct ids"
    and "list_all (\<lambda>i. storable (id_json i)) ids"
  shows "ownedIds_initial (storage (saveOwned st)) = Inr (ownedIds st)
    \<and> set (ownedIds st) = id_json ` set ids
    \<and> (ownedIds st' = map id_json ids' \<and> distinct ids' \<and> set ids' = set ids \<longrightarrow>
         (\<exists>s'. ownedIds_initial (storage (saveOwned st')) = Inr s' \<and> set s' = set (ownedIds st)))
    \<and> (id_json (id_field r) \<notin> set (ownedIds st) \<longrightarrow>
         ownedIds (snd (checkbox_change lc r False (snd (checkbox_change lc r True st))))
           = ownedIds st
         \<and> storage (snd (checkbox_change lc r False (snd (checkbox_change lc r True st))))
           = storage (saveOwned st)
         \<and> ownedIds_initial
             (storage (snd (checkbox_change lc r False (snd (checkbox_change lc r True st)))))
           = Inr (ownedIds st))"
proof -
  have reload: "ownedIds_initial (storage (saveOwned t)) = Inr (ownedIds t)"
    if "ownedIds t = map id_json js" "distinct js" "list_all (\<lambda>i. storable (id_json i)) js"
    for t js
  proof -
    from that have "list_all storable (ownedIds t)" "distinct (ownedIds t)"
      by (simp_all add: list_all_iff distinct_map_id_json)
    then show ?thesis
      using ownedIds_initial_stringify [of "ownedIds t"] by (simp add: saveOwned_def)
  qed
  have 1: "ownedIds_initial (storage (saveOwned st)) = Inr (ownedIds st)"
    using assms by (rule reload)
  have 2: "set (ownedIds st) = id_json ` set ids" using assms(1) by simp
  have 3: "\<exists>s'. ownedIds_initial (storage (saveOwned st')) = Inr s' \<and> set s' = set (ownedIds st)"
    if h: "ownedIds st' = map id_json ids' \<and> distinct ids' \<and> set ids' = set ids"
  proof -
    from h assms(3) have "list_all (\<lambda>i. storable (id_json i)) ids'"
      by (simp add: list_all_iff)
    with h have "ownedIds_initial (storage (saveOwned st')) = Inr (ownedIds st')"
      by (intro reload [of st' ids']) simp_all
    moreover from h assms(1) have "set (ownedIds st') = set (ownedIds st)" by simp
    ultimately show ?thesis by blast
  qed
  have 4: "ownedIds (snd (checkbox_change lc r False (snd (checkbox_change lc r True st))))
           = ownedIds st
         \<and> storage (snd (checkbox_change lc r False (snd (checkbox_change lc r True st))))
           = storage (saveOwned st)
         \<and> ownedIds_initial
             (storage (snd (checkbox_change lc r False (snd (checkbox_change lc r True st)))))
           = Inr (ownedIds st)"
    if "id_json (id_field r) \<notin> set (ownedIds st)"
  proof -
    have o: "ownedIds (snd (checkbox_change lc r False (snd (checkbox_change lc r True st))))
        = ownedIds st"
      by (simp only: checkbox_change_ownedIds toggled_on_off [OF that])
    have p: "storage (snd (checkbox_change lc r False (snd (checkbox_change lc r True st))))
        = storage (saveOwned st)"
      by (simp add: checkbox_change_storage checkbox_change_ownedIds toggled_on_off [OF that]
          saveOwned_def del: stringify.simps)
    from o p 1 show ?thesis by simp
  qed
  from 1 2 3 4 show ?thesis by blast
qed

theorem saveOwned_reload_roundtrip_witness:
  "ownedIds_initial (storage (saveOwned (page (js ''all'') [] [JNum 2, JStr (js ''a'')])))
     = Inr [JNum 2, JStr (js ''a'')]
   \<and> ownedIds_initial (storage (saveOwned (page (js ''all'') [] [JStr (js ''a''), JNum 2])))
     = Inr [JStr (js ''a''), JNum 2]
   \<and> storage (snd (checkbox_change ascii_toLowerCase fish False
        (snd (checkbox_change ascii_toLowerCase fish True
          (page (js ''all'') [] [JNum 2, JStr (js ''a'')])))))
     = storage (saveOwned (page (js ''all'') [] [JNum 2, JStr (js ''a'')]))"
proof -
  have a: "ownedIds (page (js ''all'') [] [JNum 2, JStr (js ''a'')])
      = map id_json [IdNum 2, IdStr (js ''a'')]"
    and b: "ownedIds (page (js ''all'') [] [JStr (js ''a''), JNum 2])
      = map id_json [IdStr (js ''a''), IdNum 2]"
    by (simp_all add: page_def)
  have d: "distinct [IdNum 2, IdStr (js ''a'')]" "distinct [IdStr (js ''a''), IdNum 2]" by simp_all
  have s: "list_all (\<lambda>i. storable (id_json i)) [IdNum 2, IdStr (js ''a'')]"
    "list_all (\<lambda>i. storable (id_json i)) [IdStr (js ''a''), IdNum 2]"
    by (simp_all add: storable_def)
  have n: "id_json (id_field fish) \<notin> set (ownedIds (page (js ''all'') [] [JNum 2, JStr (js ''a'')]))"
    by (simp add: page_def fish_def)
  note t = saveOwned_reload_roundtrip [OF a d(1) s(1), of _ _ fish ascii_toLowerCase]
  note u = saveOwned_reload_roundtrip [OF b d(2) s(2)]
  have 1: "ownedIds_initial (storage (saveOwned (page (js ''all'') [] [JNum 2, JStr (js ''a'')])))
     = Inr [JNum 2, JStr (js ''a'')]"
    using t [THEN conjunct1] by (simp add: page_def)
  have 2: "ownedIds_initial (storage (saveOwned (page (js ''all'') [] [JStr (js ''a''), JNum 2])))
     = Inr [JStr (js ''a''), JNum 2]"
    using u [THEN conjunct1] by (simp add: page_def)
  have 3: "storage (snd (checkbox_change ascii_toLowerCase fish False
        (snd (checkbox_change ascii_toLowerCase fish True
          (page (js ''all'') [] [JNum 2, JStr (js ''a'')])))))
     = storage (saveOwned (page (js ''all'') [] [JNum 2, JStr (js ''a'')]))"
    using t [THEN conjunct2, THEN conjunct2, THEN conjunct2] n by blast
  from 1 2 3 show ?thesis by (intro conjI)
qed

text \<open>
  C9: after the listener of a checkbox has run, the stored entry is \<open>JSON.stringify\<close> of
  the elements of the ownership set in their order. No number, string, boolean or \<open>null\<close>
  is twice in the set after it if none was before (and none is in the set line 6 builds,
  \<open>ownedIds_initial_distinct_primitive\<close>); for a set of storable values the stored text
  parses back to that very sequence, without duplicates. Checking the box of an id that is
  owned, or unchecking that of one that is not, leaves the set as it is, and the stored
  entry too once it is the serialization of the set, as it is after any earlier change.
\<close>

theorem checkbox_change_persists:
  "storage (snd (checkbox_change lc r checked st))
     = Some (stringify (JArr (ownedIds (snd (checkbox_change lc r checked st)))))
   \<and> (distinct (filter is_primitive (ownedIds st)) \<longrightarrow>
        distinct (filter is_primitive (ownedIds (snd (checkbox_change lc r checked st)))))
   \<and> (list_all storable (ownedIds st) \<and> distinct (ownedIds st) \<and> storable (id_json (id_field r)) \<longrightarrow>
        (\<exists>xs. storage (snd (checkbox_change lc r checked st)) = Some (stringify (JArr xs))
           \<and> JSON_parse (stringify (JArr xs)) = Inr (JArr xs) \<and> distinct xs
           \<and> xs = ownedIds (snd (checkbox_change lc r checked st))))
   \<and> ((checked \<longleftrightarrow> id_json (id_field r) \<in> set (ownedIds st)) \<longrightarrow>
        ownedIds (snd (checkbox_change lc r checked st)) = ownedIds st
        \<and> (storage st = Some (stringify (JArr (ownedIds st))) \<longrightarrow>
             storage (snd (checkbox_change lc r checked st)) = storage st))"
proof -
  let ?st' = "snd (checkbox_change lc r checked st)"
  have o: "ownedIds ?st' = toggled r checked (ownedIds st)"
    by (rule checkbox_change_ownedIds)
  have 1: "storage ?st' = Some (stringify (JArr (ownedIds ?st')))"
    unfolding o by (rule checkbox_change_storage)
  have 2: "distinct (filter is_primitive (ownedIds ?st'))"
    if "distinct (filter is_primitive (ownedIds st))"
    unfolding o using that by (rule toggled_distinct_primitive)
  have 3: "\<exists>xs. storage ?st' = Some (stringify (JArr xs))
           \<and> JSON_parse (stringify (JArr xs)) = Inr (JArr xs) \<and> distinct xs \<and> xs = ownedIds ?st'"
    if h: "list_all storable (ownedIds st) \<and> distinct (ownedIds st) \<and> storable (id_json (id_field r))"
  proof -
    from h have "list_all storable (ownedIds ?st')" "distinct (ownedIds ?st')"
      unfolding o by (simp_all add: toggled_storable toggled_distinct)
    with 1 JSON_parse_stringify_array [of "ownedIds ?st'"] show ?thesis by blast
  qed
  have 4: "ownedIds ?st' = ownedIds st
        \<and> (storage st = Some (stringify (JArr (ownedIds st))) \<longrightarrow> storage ?st' = storage st)"
    if h: "checked \<longleftrightarrow> id_json (id_field r) \<in> set (ownedIds st)"
  proof -
    from h have "toggled r checked (ownedIds st) = ownedIds st"
      by (simp add: toggled_eq remove1_idem)
    with o have e: "ownedIds ?st' = ownedIds st" by simp
    with 1 show ?thesis by (simp del: stringify.simps)
  qed
  from 1 2 3 4 show ?thesis by blast
qed

theorem checkbox_change_persists_witness:
  "storage (snd (checkbox_change ascii_toLowerCase cake True
       (page (js ''all'') [] [JNum 2, JStr (js ''a'')])))
     = Some (stringify (JArr [JNum 2, JStr (js ''a'')]))
   \<and> ownedIds (snd (checkbox_change ascii_toLowerCase cake True
       (page (js ''all'') [] [JNum 2, JStr (js ''a'')]))) = [JNum 2, JStr (js ''a'')]
   \<and> JSON_parse (stringify (JArr [JNum 2, JStr (js ''a'')])) = Inr (JArr [JNum 2, JStr (js ''a'')])
   \<and> distinct [JNum 2, JStr (js ''a'')]"
proof -
  let ?st = "page (js ''all'') [] [JNum 2, JStr (js ''a'')]"
  have o: "ownedIds ?st = [JNum 2, JStr (js ''a'')]" by (simp add: page_def)
  have h1: "True \<longleftrightarrow> id_json (id_field cake) \<in> set (ownedIds ?st)"
    by (simp add: page_def cake_def)
  have h2: "list_all storable (ownedIds ?st) \<and> distinct (ownedIds ?st)
      \<and> storable (id_json (id_field cake))"
    by (simp add: page_def cake_def storable_def)
  note t = checkbox_change_persists [of ascii_toLowerCase cake True ?st]
  from t h1 have e: "ownedIds (snd (checkbox_change ascii_toLowerCase cake True ?st)) = ownedIds ?st"
    by blast
  from t have "storage (snd (checkbox_change ascii_toLowerCase cake True ?st))
     = Some (stringify (JArr (ownedIds (snd (checkbox_change ascii_toLowerCase cake True ?st)))))"
    by blast
  then have 1: "storage (snd (checkbox_change ascii_toLowerCase cake True ?st))
     = Some (stringify (JArr [JNum 2, JStr (js ''a'')]))"
    by (simp only: e o)
  from t h2 obtain xs where "JSON_parse (stringify (JArr xs)) = Inr (JArr xs)" "distinct xs"
    "xs = ownedIds (snd (checkbox_change ascii_toLowerCase cake True ?st))"
    by blast
  then have 3: "JSON_parse (stringify (JArr [JNum 2, JStr (js ''a'')])) = Inr (JArr [JNum 2, JStr (js ''a'')])"
    and 4: "distinct [JNum 2, JStr (js ''a'')]"
    by (simp_all only: e o)
  from e o have 2: "ownedIds (snd (checkbox_change ascii_toLowerCase cake True ?st))
      = [JNum 2, JStr (js ''a'')]" by simp
  from 1 2 3 4 show ?thesis by (intro conjI)
qed

end
